theory Spec2Isabelle
  imports Complex_Main "HOL-Library.Multiset"
begin

section \<open>JavaScript numbers and dates\<close>

text \<open>
  A JavaScript \<^verbatim>\<open>number\<close> is modelled as an exact rational or one of the three special
  values of IEEE arithmetic. Rounding error of doubles and the sign of zero are not
  modelled; division by zero, overflow to the infinities and NaN propagation are.
  A decimal text held by a \<^verbatim>\<open>numeric\<close> column (\<^verbatim>\<open>totalValueUsd\<close>, \<^verbatim>\<open>amount\<close>) is
  identified with the number it denotes, so \<^verbatim>\<open>parseFloat\<close> of such a text is the number.
\<close>

datatype jsnum = Fin rat | PInf | NInf | NaN

fun js_neg :: "jsnum \<Rightarrow> jsnum" where
  "js_neg (Fin a) = Fin (- a)"
| "js_neg PInf = NInf"
| "js_neg NInf = PInf"
| "js_neg NaN = NaN"

fun js_add :: "jsnum \<Rightarrow> jsnum \<Rightarrow> jsnum" where
  "js_add NaN _ = NaN"
| "js_add _ NaN = NaN"
| "js_add (Fin a) (Fin b) = Fin (a + b)"
| "js_add PInf NInf = NaN"
| "js_add NInf PInf = NaN"
| "js_add PInf _ = PInf"
| "js_add NInf _ = NInf"
| "js_add (Fin a) PInf = PInf"
| "js_add (Fin a) NInf = NInf"

definition js_sub :: "jsnum \<Rightarrow> jsnum \<Rightarrow> jsnum" where
  "js_sub a b = js_add a (js_neg b)"

text \<open>The sign of a number, \<open>None\<close> for NaN; zero counts as positive zero.\<close>

fun js_sign :: "jsnum \<Rightarrow> int option" where
  "js_sign (Fin a) = Some (if a < 0 then - 1 else if a = 0 then 0 else 1)"
| "js_sign PInf = Some 1"
| "js_sign NInf = Some (- 1)"
| "js_sign NaN = None"

definition js_inf :: "int \<Rightarrow> jsnum" where
  "js_inf s = (if s < 0 then NInf else PInf)"

fun js_mul :: "jsnum \<Rightarrow> jsnum \<Rightarrow> jsnum" where
  "js_mul (Fin a) (Fin b) = Fin (a * b)"
| "js_mul a b =
     (case (js_sign a, js_sign b) of
        (Some s, Some t) \<Rightarrow> if s * t = 0 then NaN else js_inf (s * t)
      | _ \<Rightarrow> NaN)"

fun js_div :: "jsnum \<Rightarrow> jsnum \<Rightarrow> jsnum" where
  "js_div (Fin a) (Fin b) =
     (if b \<noteq> 0 then Fin (a / b)
      else if a = 0 then NaN else js_inf (if a < 0 then - 1 else 1))"
| "js_div NaN _ = NaN"
| "js_div _ NaN = NaN"
| "js_div (Fin a) _ = Fin 0"
| "js_div a (Fin b) =
     (case js_sign a of Some s \<Rightarrow> js_inf (if b < 0 then - s else s) | None \<Rightarrow> NaN)"
| "js_div _ _ = NaN"

text \<open>
  \<^verbatim>\<open>parseFloat(x.toFixed(d))\<close>: \<^verbatim>\<open>toFixed\<close> renders the nearest multiple of \<open>10^-d\<close>, the
  larger one in magnitude on a tie, and the text of \<open>x\<close> itself from \<open>10^21\<close> on and for
  the special values; \<^verbatim>\<open>parseFloat\<close> reads the rendered number back.
\<close>

definition round_half_away :: "nat \<Rightarrow> rat \<Rightarrow> rat" where
  "round_half_away d x =
     (if x < 0 then - (of_int \<lfloor>(- x) * 10 ^ d + 1 / 2\<rfloor> / 10 ^ d)
      else of_int \<lfloor>x * 10 ^ d + 1 / 2\<rfloor> / 10 ^ d)"

fun parseFloat_toFixed :: "nat \<Rightarrow> jsnum \<Rightarrow> jsnum" where
  "parseFloat_toFixed d (Fin x) =
     (if \<bar>x\<bar> \<ge> 10 ^ 21 then Fin x else Fin (round_half_away d x))"
| "parseFloat_toFixed d v = v"

text \<open>
  A \<^verbatim>\<open>Date\<close> is its time value: milliseconds since the epoch, an integer. Invalid dates
  are not modelled. A time zone gives the offset of local time at a UTC instant and the
  offset used to read a local time back (\<^verbatim>\<open>LocalTZA(t, true)\<close> and
  \<^verbatim>\<open>LocalTZA(t, false)\<close> of ECMAScript).
\<close>

type_synonym jsdate = int

record timezone =
  offset_at_utc :: "jsdate \<Rightarrow> int"
  offset_at_local :: "int \<Rightarrow> int"

definition utc_zone :: timezone where
  "utc_zone = \<lparr>offset_at_utc = (\<lambda>_. 0), offset_at_local = (\<lambda>_. 0)\<rparr>"

definition msPerHour :: int where
  "msPerHour = 3600000"

definition msPerDay :: int where
  "msPerDay = 86400000"

section \<open>Portfolio performance: \<^verbatim>\<open>portfolio-performance.utils.ts\<close>\<close>

record AssetBalance =
  assetCode :: string
  assetIssuer :: "string option"
  amount :: jsnum
  valueUsd :: jsnum

text \<open>
  \<^verbatim>\<open>SnapshotData\<close>, which is also the shape of the \<^verbatim>\<open>PortfolioSnapshot\<close> entity rows.
\<close>

record SnapshotData =
  snapshotId :: string
  userId :: string
  createdAt :: jsdate
  assetBalances :: "AssetBalance list"
  totalValueUsd :: jsnum

datatype window_name = W24h | W7d | W30d

record PerformanceWindowConfig =
  window :: window_name
  hours :: int

definition PERFORMANCE_WINDOWS :: "PerformanceWindowConfig list" where
  "PERFORMANCE_WINDOWS =
     [\<lparr>window = W24h, hours = 24\<rparr>,
      \<lparr>window = W7d, hours = 24 * 7\<rparr>,
      \<lparr>window = W30d, hours = 24 * 30\<rparr>]"

record TimeWindowPerformanceDto =
  dtoWindow :: window_name
  hasData :: bool
  absolutePnl :: "jsnum option"
  percentageChange :: "jsnum option"
  currentValueUsd :: jsnum
  baselineValueUsd :: "jsnum option"
  baselineDate :: "jsdate option"

record PortfolioPerformanceResponseDto =
  responseUserId :: string
  responseCurrentValueUsd :: jsnum
  calculatedAt :: jsdate
  windows :: "TimeWindowPerformanceDto list"

text \<open>
  \<^verbatim>\<open>setHours(getHours() - hours)\<close> works on the local time of the process: the hour
  field of the local time is lowered and the result read back as a UTC instant.
\<close>

definition calculateBaselineDate :: "timezone \<Rightarrow> jsdate \<Rightarrow> int \<Rightarrow> jsdate" where
  "calculateBaselineDate tz now hrs =
     (let local = now + offset_at_utc tz now;
          moved = local - hrs * msPerHour
      in moved - offset_at_local tz moved)"

text \<open>
  The loop of \<^verbatim>\<open>findClosestSnapshot\<close>. \<open>minDiff\<close> starts at \<^verbatim>\<open>Infinity\<close>, which is
  \<open>None\<close> here, so that \<open>diff < minDiff\<close> holds for every \<open>diff\<close> at the start.
\<close>

fun less_minDiff :: "int \<Rightarrow> int option \<Rightarrow> bool" where
  "less_minDiff diff None = True"
| "less_minDiff diff (Some m) = (diff < m)"

fun closest_loop ::
  "SnapshotData list \<Rightarrow> jsdate \<Rightarrow> SnapshotData option \<Rightarrow> int option \<Rightarrow> SnapshotData option"
where
  "closest_loop [] targetDate closestSnapshot minDiff = closestSnapshot"
| "closest_loop (snapshot # rest) targetDate closestSnapshot minDiff =
     (let diff = \<bar>createdAt snapshot - targetDate\<bar>
      in if createdAt snapshot \<le> targetDate \<and> less_minDiff diff minDiff
         then closest_loop rest targetDate (Some snapshot) (Some diff)
         else closest_loop rest targetDate closestSnapshot minDiff)"

text \<open>
  \<^verbatim>\<open>[...snapshots].sort((a, b) => a.createdAt.getTime() - b.createdAt.getTime())\<close> is a
  built-in of the engine, taken as the parameter \<open>srt\<close>. ECMAScript requires the result to
  be a stable ascending rearrangement of the array; \<open>sort_key createdAt\<close> is that
  rearrangement, and \<open>findClosestSnapshot\<close> is the function with it.
\<close>

definition findClosestSnapshotWith ::
  "(SnapshotData list \<Rightarrow> SnapshotData list) \<Rightarrow> SnapshotData list \<Rightarrow> jsdate
     \<Rightarrow> SnapshotData option"
where
  "findClosestSnapshotWith srt snapshots targetDate =
     (if length snapshots = 0 then None
      else closest_loop (srt snapshots) targetDate None None)"

definition findClosestSnapshot :: "SnapshotData list \<Rightarrow> jsdate \<Rightarrow> SnapshotData option" where
  "findClosestSnapshot = findClosestSnapshotWith (sort_key createdAt)"

definition calculateWindowPerformance ::
  "jsnum \<Rightarrow> SnapshotData option \<Rightarrow> PerformanceWindowConfig \<Rightarrow> TimeWindowPerformanceDto"
where
  "calculateWindowPerformance currentValue baselineSnapshot windowConfig =
     (case baselineSnapshot of
        None \<Rightarrow>
          \<lparr>dtoWindow = window windowConfig,
           hasData = False,
           absolutePnl = None,
           percentageChange = None,
           currentValueUsd = currentValue,
           baselineValueUsd = None,
           baselineDate = None\<rparr>
      | Some b \<Rightarrow>
          (let baselineValue = totalValueUsd b;
               pnl = js_sub currentValue baselineValue;
               pct = (if baselineValue \<noteq> Fin 0
                      then js_mul (js_div pnl baselineValue) (Fin 100)
                      else Fin 0)
           in \<lparr>dtoWindow = window windowConfig,
               hasData = True,
               absolutePnl = Some (parseFloat_toFixed 2 pnl),
               percentageChange = Some (parseFloat_toFixed 4 pct),
               currentValueUsd = currentValue,
               baselineValueUsd = Some baselineValue,
               baselineDate = Some (createdAt b)\<rparr>))"

definition calculatePortfolioPerformanceWith ::
  "(SnapshotData list \<Rightarrow> SnapshotData list) \<Rightarrow> timezone \<Rightarrow> string \<Rightarrow> jsnum
     \<Rightarrow> SnapshotData list \<Rightarrow> jsdate \<Rightarrow> PortfolioPerformanceResponseDto"
where
  "calculatePortfolioPerformanceWith srt tz uid currentValue snapshots now =
     \<lparr>responseUserId = uid,
      responseCurrentValueUsd = currentValue,
      calculatedAt = now,
      windows =
        map (\<lambda>config.
               calculateWindowPerformance currentValue
                 (findClosestSnapshotWith srt snapshots
                    (calculateBaselineDate tz now (hours config)))
                 config)
            PERFORMANCE_WINDOWS\<rparr>"

definition calculatePortfolioPerformance ::
  "timezone \<Rightarrow> string \<Rightarrow> jsnum \<Rightarrow> SnapshotData list \<Rightarrow> jsdate
     \<Rightarrow> PortfolioPerformanceResponseDto"
where
  "calculatePortfolioPerformance =
     calculatePortfolioPerformanceWith (sort_key createdAt)"

section \<open>The baseline search on a store of arrays\<close>

text \<open>
  A JavaScript array is an object reached through a reference, and
  \<^verbatim>\<open>Array.prototype.sort\<close> rearranges the array it is called on. The store holds the
  arrays of snapshots; a reference is an index into it. \<^verbatim>\<open>[...snapshots]\<close> allocates a
  new array with the same elements, and \<^verbatim>\<open>sort\<close> overwrites the array at the reference
  it is given and returns that reference. Snapshot objects themselves are never modified
  by this code, so arrays hold them by value.
\<close>

type_synonym heap = "SnapshotData list list"

definition array_spread :: "heap \<Rightarrow> nat \<Rightarrow> heap \<times> nat" where
  "array_spread h a = (h @ [h ! a], length h)"

definition array_sort :: "heap \<Rightarrow> nat \<Rightarrow> heap \<times> nat" where
  "array_sort h a = (h[a := sort_key createdAt (h ! a)], a)"

definition findClosestSnapshot_heap ::
  "heap \<Rightarrow> nat \<Rightarrow> jsdate \<Rightarrow> heap \<times> SnapshotData option"
where
  "findClosestSnapshot_heap h snapshots targetDate =
     (if length (h ! snapshots) = 0 then (h, None)
      else
        (let (h1, copy) = array_spread h snapshots;
             (h2, sortedSnapshots) = array_sort h1 copy
         in (h2, closest_loop (h2 ! sortedSnapshots) targetDate None None)))"

text \<open>\<^verbatim>\<open>PERFORMANCE_WINDOWS.map\<close>, one window after the other on the same store.\<close>

fun windows_heap ::
  "timezone \<Rightarrow> heap \<Rightarrow> jsnum \<Rightarrow> nat \<Rightarrow> jsdate \<Rightarrow> PerformanceWindowConfig list
     \<Rightarrow> heap \<times> TimeWindowPerformanceDto list"
where
  "windows_heap tz h currentValue snapshots now [] = (h, [])"
| "windows_heap tz h currentValue snapshots now (config # configs) =
     (let baselineDate = calculateBaselineDate tz now (hours config);
          (h1, baselineSnapshot) = findClosestSnapshot_heap h snapshots baselineDate;
          w = calculateWindowPerformance currentValue baselineSnapshot config;
          (h2, ws) = windows_heap tz h1 currentValue snapshots now configs
      in (h2, w # ws))"

definition calculatePortfolioPerformance_heap ::
  "timezone \<Rightarrow> heap \<Rightarrow> string \<Rightarrow> jsnum \<Rightarrow> nat \<Rightarrow> jsdate
     \<Rightarrow> heap \<times> PortfolioPerformanceResponseDto"
where
  "calculatePortfolioPerformance_heap tz h uid currentValue snapshots now =
     (let (h', ws) = windows_heap tz h currentValue snapshots now PERFORMANCE_WINDOWS
      in (h', \<lparr>responseUserId = uid,
               responseCurrentValueUsd = currentValue,
               calculatedAt = now,
               windows = ws\<rparr>))"

section \<open>Daily snapshots: \<^verbatim>\<open>snapshot.repository.ts\<close> and \<^verbatim>\<open>snapshot.generator.ts\<close>\<close>

subsection \<open>The tables\<close>

text \<open>
  Modelled from the spec: the rows of \<^verbatim>\<open>sentiment_signals\<close>, the table that the
  aggregation query reads and whose declaration is not part of the source. A raw record
  has a key, a score, an optional weight and a timestamp; the key may be absent, as the
  \<^verbatim>\<open>asset_symbol IS NOT NULL\<close> filter of the query shows. \<^verbatim>\<open>numeric\<close> values are exact
  rationals.
\<close>

record Signal =
  asset_symbol :: "string option"
  sentiment_score :: rat
  volume :: "rat option"
  signal_timestamp :: jsdate

text \<open>
  A row of \<^verbatim>\<open>daily_snapshots\<close>. The generated \<^verbatim>\<open>uuid\<close> is a number here, and the
  \<^verbatim>\<open>date\<close> column holds the UTC midnight of its day.
\<close>

record DailySnapshot =
  rowId :: nat
  snapshotDate :: jsdate
  assetSymbol :: "string option"
  avgSentiment :: jsnum
  minSentiment :: "jsnum option"
  maxSentiment :: "jsnum option"
  signalCount :: nat
  totalVolume :: "jsnum option"
  volumeWeightedSentiment :: "jsnum option"
  rowCreatedAt :: jsdate
  rowUpdatedAt :: jsdate

text \<open>
  The database: the two tables and the statements executed so far, oldest first. The
  log is what the tests of the generator observe through their mocks (whether and with
  what the repository was called).
\<close>

datatype db_statement = AggregateQuery jsdate | UpsertStatement jsdate nat

record database =
  signals :: "Signal list"
  daily_snapshots :: "DailySnapshot list"
  statements :: "db_statement list"

datatype db_error = CardinalityViolation

subsection \<open>The aggregation query\<close>

text \<open>
  SQL aggregates over the rows of one group. \<^verbatim>\<open>AVG\<close>, \<^verbatim>\<open>MIN\<close> and \<^verbatim>\<open>MAX\<close> of no
  row are \<^verbatim>\<open>NULL\<close>; \<^verbatim>\<open>SUM\<close> skips \<^verbatim>\<open>NULL\<close> inputs and is \<^verbatim>\<open>NULL\<close> when nothing is left;
  \<^verbatim>\<open>COUNT(*)\<close> counts rows. \<open>None\<close> is \<^verbatim>\<open>NULL\<close>.
\<close>

definition sql_avg :: "rat list \<Rightarrow> rat option" where
  "sql_avg xs = (if xs = [] then None else Some (sum_list xs / of_nat (length xs)))"

fun sql_min :: "rat list \<Rightarrow> rat option" where
  "sql_min [] = None"
| "sql_min (x # xs) = Some (fold min xs x)"

fun sql_max :: "rat list \<Rightarrow> rat option" where
  "sql_max [] = None"
| "sql_max (x # xs) = Some (fold max xs x)"

fun non_null :: "'a option list \<Rightarrow> 'a list" where
  "non_null [] = []"
| "non_null (None # vs) = non_null vs"
| "non_null (Some v # vs) = v # non_null vs"

definition sql_sum :: "rat option list \<Rightarrow> rat option" where
  "sql_sum vs = (if non_null vs = [] then None else Some (sum_list (non_null vs)))"

text \<open>\<^verbatim>\<open>sentiment_score * volume\<close>, which is \<^verbatim>\<open>NULL\<close> when the volume is.\<close>

definition score_times_volume :: "Signal \<Rightarrow> rat option" where
  "score_times_volume r = map_option (\<lambda>v. sentiment_score r * v) (volume r)"

text \<open>
  \<^verbatim>\<open>CASE WHEN SUM(volume) > 0 THEN SUM(sentiment_score * volume) / SUM(volume) ELSE NULL END\<close>:
  a comparison with \<^verbatim>\<open>NULL\<close> is not true, so the \<^verbatim>\<open>ELSE\<close> branch is taken then.
\<close>

definition sql_weighted :: "Signal list \<Rightarrow> rat option" where
  "sql_weighted rows =
     (case sql_sum (map volume rows) of
        None \<Rightarrow> None
      | Some weight \<Rightarrow>
          if weight > 0
          then map_option (\<lambda>s. s / weight) (sql_sum (map score_times_volume rows))
          else None)"

text \<open>
  A result row of the query. Every column but the key is cast to text in SQL and parsed
  back by \<open>parseRow\<close>; a text is identified with the number it denotes. The
  declarations of \<^verbatim>\<open>AssetAggregationRow\<close>, \<^verbatim>\<open>AssetAggregation\<close> and
  \<^verbatim>\<open>SnapshotRunResult\<close> are not part of the source; their fields are the ones that
  \<open>parseRow\<close>, \<open>upsertSnapshots\<close> and \<open>generateForDate\<close> read and write.
\<close>

record AssetAggregationRow =
  row_asset_symbol :: "string option"
  avg_sentiment :: "rat option"
  min_sentiment :: "rat option"
  max_sentiment :: "rat option"
  signal_count :: nat
  total_volume :: "rat option"
  volume_weighted_sentiment :: "rat option"

text \<open>The select list, which both halves of the \<^verbatim>\<open>UNION ALL\<close> share.\<close>

definition aggregate_group :: "string option \<Rightarrow> Signal list \<Rightarrow> AssetAggregationRow" where
  "aggregate_group key rows =
     \<lparr>row_asset_symbol = key,
      avg_sentiment = sql_avg (map sentiment_score rows),
      min_sentiment = sql_min (map sentiment_score rows),
      max_sentiment = sql_max (map sentiment_score rows),
      signal_count = length rows,
      total_volume = sql_sum (map volume rows),
      volume_weighted_sentiment = sql_weighted rows\<rparr>"

text \<open>
  \<^verbatim>\<open>new Date(Date.UTC(d.getUTCFullYear(), d.getUTCMonth(), d.getUTCDate()))\<close>: the start
  of the UTC day of \<open>d\<close>. (\<^verbatim>\<open>Date.UTC\<close> reads a year from 0 to 99 as a year of the
  twentieth century; dates that early are outside the model, as are time values beyond
  the range of \<^verbatim>\<open>Date\<close>.)
\<close>

definition toUtcMidnight :: "jsdate \<Rightarrow> jsdate" where
  "toUtcMidnight d = d - d mod msPerDay"

text \<open>\<^verbatim>\<open>DATE(signal_timestamp AT TIME ZONE 'UTC') = $1\<close>, with the date string of \<open>utcDate\<close>.\<close>

definition on_utc_date :: "jsdate \<Rightarrow> Signal \<Rightarrow> bool" where
  "on_utc_date utcDate r \<longleftrightarrow> signal_timestamp r div msPerDay = utcDate div msPerDay"

text \<open>
  The first \<^verbatim>\<open>SELECT\<close> groups the day's rows that have a key and yields one row per
  group, so none when there is no such row. The second has aggregates and no
  \<^verbatim>\<open>GROUP BY\<close>: it yields exactly one row, also when no row of the table matches. The
  order of the groups is the database's choice; the model lists them by last
  occurrence.
\<close>

definition per_asset_rows :: "Signal list \<Rightarrow> AssetAggregationRow list" where
  "per_asset_rows day =
     map (\<lambda>k. aggregate_group (Some k) (filter (\<lambda>r. asset_symbol r = Some k) day))
       (remdups (non_null (map asset_symbol day)))"

definition global_row :: "Signal list \<Rightarrow> AssetAggregationRow" where
  "global_row day = aggregate_group None day"

definition aggregation_query :: "Signal list \<Rightarrow> jsdate \<Rightarrow> AssetAggregationRow list" where
  "aggregation_query table utcDate =
     (let day = filter (on_utc_date utcDate) table
      in per_asset_rows day @ [global_row day])"

record AssetAggregation =
  aggSymbol :: "string option"
  aggAvgSentiment :: jsnum
  aggMinSentiment :: "jsnum option"
  aggMaxSentiment :: "jsnum option"
  aggSignalCount :: nat
  aggTotalVolume :: "jsnum option"
  aggVolumeWeightedSentiment :: "jsnum option"

text \<open>\<^verbatim>\<open>parseFloat(null)\<close> is NaN; \<open>nullableFloat\<close> keeps \<^verbatim>\<open>null\<close>.\<close>

definition parseFloat_text :: "rat option \<Rightarrow> jsnum" where
  "parseFloat_text v = (case v of None \<Rightarrow> NaN | Some x \<Rightarrow> Fin x)"

definition nullableFloat :: "rat option \<Rightarrow> jsnum option" where
  "nullableFloat v = (case v of None \<Rightarrow> None | Some x \<Rightarrow> Some (parseFloat_text (Some x)))"

definition parseRow :: "AssetAggregationRow \<Rightarrow> AssetAggregation" where
  "parseRow row =
     \<lparr>aggSymbol = row_asset_symbol row,
      aggAvgSentiment = parseFloat_text (avg_sentiment row),
      aggMinSentiment = nullableFloat (min_sentiment row),
      aggMaxSentiment = nullableFloat (max_sentiment row),
      aggSignalCount = signal_count row,
      aggTotalVolume = nullableFloat (total_volume row),
      aggVolumeWeightedSentiment = nullableFloat (volume_weighted_sentiment row)\<rparr>"

definition aggregateForDate :: "database \<Rightarrow> jsdate \<Rightarrow> database \<times> AssetAggregation list" where
  "aggregateForDate db utcDate =
     (db\<lparr>statements := statements db @ [AggregateQuery utcDate]\<rparr>,
      map parseRow (aggregation_query (signals db) utcDate))"

subsection \<open>The upsert\<close>

text \<open>
  \<^verbatim>\<open>INSERT ... ON CONFLICT (snapshot_date, asset_symbol) DO UPDATE\<close> against the unique
  index on these two columns. A proposed row conflicts with a stored row when both
  columns are equal; in a unique index \<^verbatim>\<open>NULL\<close> is not equal to \<^verbatim>\<open>NULL\<close>, so a proposed
  row with no symbol never conflicts. On a conflict the listed columns of the stored row
  are overwritten; otherwise the proposed row is inserted with a new id. Two proposed
  rows of one statement that conflict with each other make the statement fail.
\<close>

definition same_day :: "jsdate \<Rightarrow> jsdate \<Rightarrow> bool" where
  "same_day a b \<longleftrightarrow> a div msPerDay = b div msPerDay"

definition conflicts :: "jsdate \<Rightarrow> string option \<Rightarrow> DailySnapshot \<Rightarrow> bool" where
  "conflicts d symbol row \<longleftrightarrow>
     same_day (snapshotDate row) d \<and> symbol \<noteq> None \<and> assetSymbol row = symbol"

definition overwrite :: "jsdate \<Rightarrow> AssetAggregation \<Rightarrow> DailySnapshot \<Rightarrow> DailySnapshot" where
  "overwrite now agg row =
     row\<lparr>avgSentiment := aggAvgSentiment agg,
         minSentiment := aggMinSentiment agg,
         maxSentiment := aggMaxSentiment agg,
         signalCount := aggSignalCount agg,
         totalVolume := aggTotalVolume agg,
         volumeWeightedSentiment := aggVolumeWeightedSentiment agg,
         rowUpdatedAt := now\<rparr>"

definition fresh_id :: "DailySnapshot list \<Rightarrow> nat" where
  "fresh_id table = Suc (fold max (map rowId table) 0)"

definition new_row :: "nat \<Rightarrow> jsdate \<Rightarrow> jsdate \<Rightarrow> AssetAggregation \<Rightarrow> DailySnapshot" where
  "new_row i now utcDate agg =
     \<lparr>rowId = i,
      snapshotDate = toUtcMidnight utcDate,
      assetSymbol = aggSymbol agg,
      avgSentiment = aggAvgSentiment agg,
      minSentiment = aggMinSentiment agg,
      maxSentiment = aggMaxSentiment agg,
      signalCount = aggSignalCount agg,
      totalVolume = aggTotalVolume agg,
      volumeWeightedSentiment = aggVolumeWeightedSentiment agg,
      rowCreatedAt = now,
      rowUpdatedAt = now\<rparr>"

definition upsert_row ::
  "jsdate \<Rightarrow> jsdate \<Rightarrow> DailySnapshot list \<Rightarrow> AssetAggregation \<Rightarrow> DailySnapshot list"
where
  "upsert_row now utcDate table agg =
     (if \<exists>row\<in>set table. conflicts utcDate (aggSymbol agg) row
      then map (\<lambda>row. if conflicts utcDate (aggSymbol agg) row
                       then overwrite now agg row else row) table
      else table @ [new_row (fresh_id table) now utcDate agg])"

definition upsertSnapshots ::
  "database \<Rightarrow> jsdate \<Rightarrow> jsdate \<Rightarrow> AssetAggregation list \<Rightarrow> database \<times> (db_error + nat)"
where
  "upsertSnapshots db now utcDate aggregations =
     (if length aggregations = 0 then (db, Inr 0)
      else
        (let db1 = db\<lparr>statements :=
                        statements db @ [UpsertStatement utcDate (length aggregations)]\<rparr>
         in if distinct (non_null (map aggSymbol aggregations))
            then (db1\<lparr>daily_snapshots :=
                        fold (\<lambda>agg table. upsert_row now utcDate table agg) aggregations
                          (daily_snapshots db1)\<rparr>,
                  Inr (length aggregations))
            else (db1, Inl CardinalityViolation)))"

subsection \<open>The generator\<close>

text \<open>
  The result of a run. \<^verbatim>\<open>durationMs\<close>, a reading of the wall clock, and the log lines
  are left out. The time \<open>now\<close> that the database stamps on the rows is an input.
\<close>

record SnapshotRunResult =
  runDate :: jsdate
  assetRowsWritten :: nat
  globalRowWritten :: bool

definition generateForDate ::
  "database \<Rightarrow> jsdate \<Rightarrow> jsdate \<Rightarrow> database \<times> (db_error + SnapshotRunResult)"
where
  "generateForDate db now date =
     (let utcDate = toUtcMidnight date;
          (db1, aggregations) = aggregateForDate db utcDate
      in if length aggregations = 0
         then (db1, Inr \<lparr>runDate = utcDate, assetRowsWritten = 0, globalRowWritten = False\<rparr>)
         else
           (let globalRow = find (\<lambda>a. aggSymbol a = None) aggregations;
                assetRows = filter (\<lambda>a. aggSymbol a \<noteq> None) aggregations
            in case upsertSnapshots db1 now utcDate aggregations of
                 (db2, Inl e) \<Rightarrow> (db2, Inl e)
               | (db2, Inr written) \<Rightarrow>
                   (db2, Inr \<lparr>runDate = utcDate,
                              assetRowsWritten = length assetRows,
                              globalRowWritten = (globalRow \<noteq> None)\<rparr>)))"

text \<open>
  The loop of \<open>backfill\<close>. The call \<^verbatim>\<open>this.generateForDate(new Date(cursor))\<close> is the
  parameter \<open>gen\<close>: a day's run takes the database and the date and gives the database
  afterwards and either its result or the exception it throws, of whatever kind.
  \<^verbatim>\<open>setUTCDate(getUTCDate() + 1)\<close> moves the cursor to the next UTC day. An exception of
  a day's run is not caught: it ends the loop and is the outcome of the backfill.
\<close>

function backfill_loop ::
  "(database \<Rightarrow> jsdate \<Rightarrow> database \<times> ('e + SnapshotRunResult)) \<Rightarrow> database \<Rightarrow> jsdate \<Rightarrow> jsdate
     \<Rightarrow> SnapshotRunResult list \<Rightarrow> database \<times> ('e + SnapshotRunResult list)"
where
  "backfill_loop gen db cursor endDate results =
     (if cursor \<le> endDate
      then (case gen db cursor of
              (db', Inl e) \<Rightarrow> (db', Inl e)
            | (db', Inr result) \<Rightarrow>
                backfill_loop gen db' (cursor + msPerDay) endDate (results @ [result]))
      else (db, Inr results))"
  by pat_completeness auto
termination
  by (relation "measure (\<lambda>(gen, db, cursor, endDate, results). nat (endDate - cursor + 1))")
     (auto simp: msPerDay_def)

definition backfill_with ::
  "(database \<Rightarrow> jsdate \<Rightarrow> database \<times> ('e + SnapshotRunResult)) \<Rightarrow> database \<Rightarrow> jsdate \<Rightarrow> jsdate
     \<Rightarrow> database \<times> ('e + SnapshotRunResult list)"
where
  "backfill_with gen db fromDate toDate =
     backfill_loop gen db (toUtcMidnight fromDate) (toUtcMidnight toDate) []"

text \<open>
  \<open>backfill\<close> with the generator of this model; \<open>now\<close> is the time that the database
  stamps on the rows.
\<close>

definition backfill ::
  "database \<Rightarrow> jsdate \<Rightarrow> jsdate \<Rightarrow> jsdate \<Rightarrow> database \<times> (db_error + SnapshotRunResult list)"
where
  "backfill db now fromDate toDate =
     backfill_with (\<lambda>db' date. generateForDate db' now date) db fromDate toDate"

section \<open>Recording a portfolio snapshot: \<^verbatim>\<open>PortfolioService.createSnapshot\<close>\<close>

subsection \<open>The balance service: \<^verbatim>\<open>stellar-balance.service.ts\<close>\<close>


datatype horizon_error = AccountNotFound | NetworkError | Timeout | OtherFailure string









subsection \<open>The service\<close>









section \<open>Sample data\<close>

text \<open>
  The observations of the 7-day scenario: one at 2024-06-13T12:00Z worth 80 and one at
  2024-06-19T12:00Z worth 100, evaluated at 2024-06-20T12:00Z.
\<close>

definition obs_jun13 :: SnapshotData where
  "obs_jun13 =
     \<lparr>snapshotId = ''1'', userId = ''user-1'', createdAt = 1718280000000,
      assetBalances = [], totalValueUsd = Fin 80\<rparr>"

definition obs_jun19 :: SnapshotData where
  "obs_jun19 =
     \<lparr>snapshotId = ''2'', userId = ''user-1'', createdAt = 1718798400000,
      assetBalances = [], totalValueUsd = Fin 100\<rparr>"

definition now_jun20 :: jsdate where
  "now_jun20 = 1718884800000"

text \<open>A second observation at the instant of \<open>obs_jun13\<close>, listed after it.\<close>

definition obs_jun13_later_row :: SnapshotData where
  "obs_jun13_later_row =
     \<lparr>snapshotId = ''3'', userId = ''user-1'', createdAt = 1718280000000,
      assetBalances = [], totalValueUsd = Fin 90\<rparr>"

text \<open>
  Another stable ascending sort: sort the reversed array by descending time, then
  reverse the result.
\<close>

definition descending_then_reversed :: "SnapshotData list \<Rightarrow> SnapshotData list" where
  "descending_then_reversed xs = rev (sort_key (\<lambda>x. - createdAt x) (rev xs))"

text \<open>
  A zone with daylight-saving time: New York between November 2023 and November 2024,
  five hours behind UTC until 2024-03-10T07:00Z and four hours behind from then on. A
  local time between 02:00 and 03:00 of that day, which the change skips, is read with
  the offset before the change.
\<close>

definition ny_zone :: timezone where
  "ny_zone =
     \<lparr>offset_at_utc = (\<lambda>t. if t < 1710054000000 then - 5 * msPerHour else - 4 * msPerHour),
      offset_at_local = (\<lambda>l. if l < 1710039600000 then - 5 * msPerHour else - 4 * msPerHour)\<rparr>"

text \<open>
  2024-03-10T12:00Z, the morning after that change, and an observation of
  2024-03-09T12:30Z, 23 and a half hours before it.
\<close>

definition now_mar10 :: jsdate where
  "now_mar10 = 1710072000000"

definition obs_mar09 :: SnapshotData where
  "obs_mar09 =
     \<lparr>snapshotId = ''4'', userId = ''user-1'', createdAt = 1709987400000,
      assetBalances = [], totalValueUsd = Fin 80\<rparr>"

text \<open>
  Raw data for 2024-06-15: three records for \<^verbatim>\<open>BTC\<close> with scores 0.5, 0.7, 0.9 and
  weights 10, 20, 30. The day starts at 1718409600000.
\<close>

definition jun15 :: jsdate where
  "jun15 = 1718409600000"

definition btc_signals :: "Signal list" where
  "btc_signals =
     [\<lparr>asset_symbol = Some ''BTC'', sentiment_score = 5 / 10, volume = Some 10,
       signal_timestamp = jun15 + 1 * msPerHour\<rparr>,
      \<lparr>asset_symbol = Some ''BTC'', sentiment_score = 7 / 10, volume = Some 20,
       signal_timestamp = jun15 + 2 * msPerHour\<rparr>,
      \<lparr>asset_symbol = Some ''BTC'', sentiment_score = 9 / 10, volume = Some 30,
       signal_timestamp = jun15 + 3 * msPerHour\<rparr>]"

definition db_jun15 :: database where
  "db_jun15 = \<lparr>signals = btc_signals, daily_snapshots = [], statements = []\<rparr>"

text \<open>A record whose weight is negative, and two records of weight zero.\<close>

definition negative_weight_signal :: Signal where
  "negative_weight_signal =
     \<lparr>asset_symbol = Some ''BTC'', sentiment_score = 1 / 2, volume = Some (- 10),
      signal_timestamp = jun15\<rparr>"

definition zero_weight_signals :: "Signal list" where
  "zero_weight_signals =
     [\<lparr>asset_symbol = Some ''ETH'', sentiment_score = 1 / 4, volume = Some 0,
       signal_timestamp = jun15\<rparr>,
      \<lparr>asset_symbol = Some ''ETH'', sentiment_score = 3 / 4, volume = None,
       signal_timestamp = jun15\<rparr>]"

text \<open>The times of a first and of a second run.\<close>

definition now_jun16 :: jsdate where
  "now_jun16 = jun15 + 25 * msPerHour"

definition now_jun17 :: jsdate where
  "now_jun17 = jun15 + 49 * msPerHour"

text \<open>
  A day's run that queries the day and then fails on one date, as a run does whose
  statement the database rejects; on the other dates it finds nothing to write.
\<close>

definition failing_on ::
  "jsdate \<Rightarrow> database \<Rightarrow> jsdate \<Rightarrow> database \<times> (string + SnapshotRunResult)"
where
  "failing_on bad db date =
     (if date = bad
      then (db\<lparr>statements := statements db @ [AggregateQuery date]\<rparr>,
            Inl ''numeric field overflow'')
      else (db\<lparr>statements := statements db @ [AggregateQuery date]\<rparr>,
            Inr \<lparr>runDate = date, assetRowsWritten = 0, globalRowWritten = False\<rparr>))"



section \<open>Notions used in the statements about the evaluator\<close>

text \<open>
  While the loop runs, \<open>minDiff\<close> is infinite exactly when nothing has been chosen, and
  otherwise it is the distance of the chosen snapshot, which lies at or before the target.
\<close>

definition loop_inv :: "jsdate \<Rightarrow> SnapshotData option \<Rightarrow> int option \<Rightarrow> bool" where
  "loop_inv t c m =
     (case c of None \<Rightarrow> m = None
      | Some s \<Rightarrow> createdAt s \<le> t \<and> m = Some (t - createdAt s))"

text \<open>
  What ECMAScript asks of \<^verbatim>\<open>Array.prototype.sort\<close> with the comparator of
  \<^verbatim>\<open>findClosestSnapshot\<close>: \<open>ys\<close> is a rearrangement of \<open>xs\<close>, ascending in
  \<open>createdAt\<close>, and elements of equal time keep their order.
\<close>

definition stable_ascending :: "SnapshotData list \<Rightarrow> SnapshotData list \<Rightarrow> bool" where
  "stable_ascending xs ys \<longleftrightarrow>
     mset ys = mset xs \<and> sorted (map createdAt ys) \<and>
     (\<forall>k\<in>set xs. filter (\<lambda>x. createdAt x = createdAt k) ys
                  = filter (\<lambda>x. createdAt x = createdAt k) xs)"

text \<open>An observation at or before the target that no other such observation is later than.\<close>

definition latest_eligible :: "SnapshotData list \<Rightarrow> jsdate \<Rightarrow> SnapshotData \<Rightarrow> bool" where
  "latest_eligible xs t s \<longleftrightarrow>
     createdAt s \<le> t \<and> (\<forall>x\<in>set xs. createdAt x \<le> t \<longrightarrow> createdAt x \<le> createdAt s)"

section \<open>Notions used in the statements about the daily snapshots\<close>

text \<open>
  The (score, weight) pairs of the records of a group that have a weight: the rows that
  both sums of the weighted average range over.
\<close>

definition weighted_pairs :: "Signal list \<Rightarrow> (rat \<times> rat) list" where
  "weighted_pairs rows =
     non_null (map (\<lambda>r. map_option (\<lambda>v. (sentiment_score r, v)) (volume r)) rows)"

text \<open>
  The calendar days from \<open>fromDate\<close> to \<open>toDate\<close>, both at UTC midnight, in ascending
  order; none when \<open>toDate\<close> is before \<open>fromDate\<close>.
\<close>

definition days_between :: "jsdate \<Rightarrow> jsdate \<Rightarrow> jsdate list" where
  "days_between fromDate toDate =
     map (\<lambda>i. fromDate + int i * msPerDay)
       [0 ..< nat ((toDate - fromDate) div msPerDay + 1)]"

text \<open>
  Running a day's run \<open>gen\<close> for each date of a list in turn, up to the first one that
  fails.
\<close>

fun run_days ::
  "(database \<Rightarrow> jsdate \<Rightarrow> database \<times> ('e + SnapshotRunResult)) \<Rightarrow> database \<Rightarrow> jsdate list
     \<Rightarrow> database \<times> ('e + SnapshotRunResult list)"
where
  "run_days gen db [] = (db, Inr [])"
| "run_days gen db (d # ds) =
     (case gen db d of
        (db', Inl e) \<Rightarrow> (db', Inl e)
      | (db', Inr r) \<Rightarrow>
          (case run_days gen db' ds of
             (db'', Inl e) \<Rightarrow> (db'', Inl e)
           | (db'', Inr rs) \<Rightarrow> (db'', Inr (r # rs))))"

text \<open>
  The dates on which \<open>toUtcMidnight\<close> and the step to the next day are the arithmetic of
  this model: from the year 100 on (\<^verbatim>\<open>Date.UTC\<close> reads the years 0 to 99 as 1900 to
  1999), and with the next day still a time value of \<^verbatim>\<open>Date\<close>, which ends 100 000 000
  days after the epoch.
\<close>

definition plain_date :: "jsdate \<Rightarrow> bool" where
  "plain_date d \<longleftrightarrow> - 59011459200000 \<le> d \<and> d + msPerDay \<le> 8640000000000000"

text \<open>The dates of the aggregation queries in a log of statements.\<close>

fun queried_dates :: "db_statement list \<Rightarrow> jsdate list" where
  "queried_dates [] = []"
| "queried_dates (AggregateQuery d # ss) = d # queried_dates ss"
| "queried_dates (UpsertStatement d n # ss) = queried_dates ss"

text \<open>The stored rows of a day that have no symbol.\<close>

definition global_rows_of :: "jsdate \<Rightarrow> DailySnapshot list \<Rightarrow> DailySnapshot list" where
  "global_rows_of d table =
     filter (\<lambda>row. same_day (snapshotDate row) d \<and> assetSymbol row = None) table"

section \<open>The baseline search\<close>

lemma closest_loop_None:
  "loop_inv t c m \<Longrightarrow>
   (closest_loop ys t c m = None) = (c = None \<and> (\<forall>x\<in>set ys. \<not> createdAt x \<le> t))"
  by (induction ys arbitrary: c m)
     (auto simp: loop_inv_def Let_def split: option.splits)

lemma closest_loop_Some:
  "loop_inv t c m \<Longrightarrow> closest_loop ys t c m = Some s \<Longrightarrow>
   createdAt s \<le> t \<and> (c = Some s \<or> s \<in> set ys) \<and>
   (\<forall>x\<in>set ys. createdAt x \<le> t \<longrightarrow> createdAt x \<le> createdAt s) \<and>
   (\<forall>c'. c = Some c' \<longrightarrow> createdAt c' \<le> createdAt s)"
proof (induction ys arbitrary: c m)
  case Nil
  then show ?case by (auto simp: loop_inv_def split: option.splits)
next
  case (Cons y ys)
  show ?case
  proof (cases "createdAt y \<le> t \<and> less_minDiff \<bar>createdAt y - t\<bar> m")
    case True
    then have inv: "loop_inv t (Some y) (Some (t - createdAt y))"
      by (auto simp: loop_inv_def)
    from True have ab: "\<bar>createdAt y - t\<bar> = t - createdAt y" by linarith
    with True have "less_minDiff (t - createdAt y) m" by metis
    with ab True Cons.prems
    have res: "closest_loop ys t (Some y) (Some (t - createdAt y)) = Some s"
      by (simp add: Let_def)
    from Cons.IH [OF inv res] True Cons.prems(1) show ?thesis
      by (auto simp: loop_inv_def split: option.splits)
  next
    case False
    with Cons.prems have res: "closest_loop ys t c m = Some s"
      by (auto simp: Let_def)
    from Cons.IH [OF Cons.prems(1) res] False Cons.prems(1) show ?thesis
      by (auto simp: loop_inv_def split: option.splits)
  qed
qed

text \<open>Among snapshots of equal time, the loop keeps the one it met first.\<close>

lemma closest_loop_first:
  "loop_inv t c m \<Longrightarrow> closest_loop ys t c m = Some s \<Longrightarrow>
   (case c of None \<Rightarrow> find (\<lambda>x. createdAt x = createdAt s) ys = Some s
    | Some c' \<Rightarrow> if createdAt c' = createdAt s then s = c'
                 else find (\<lambda>x. createdAt x = createdAt s) ys = Some s)"
proof (induction ys arbitrary: c m)
  case Nil
  then show ?case by (auto simp: loop_inv_def split: option.splits)
next
  case (Cons y ys)
  let ?P = "\<lambda>x. createdAt x = createdAt s"
  show ?case
  proof (cases "createdAt y \<le> t \<and> less_minDiff \<bar>createdAt y - t\<bar> m")
    case True
    then have inv: "loop_inv t (Some y) (Some (t - createdAt y))"
      by (auto simp: loop_inv_def)
    from True have ab: "\<bar>createdAt y - t\<bar> = t - createdAt y" by linarith
    with True have lt: "less_minDiff (t - createdAt y) m" by metis
    with ab True Cons.prems
    have res: "closest_loop ys t (Some y) (Some (t - createdAt y)) = Some s"
      by (simp add: Let_def)
    from closest_loop_Some [OF inv res] have le: "createdAt y \<le> createdAt s" by simp
    from Cons.IH [OF inv res] have fnd: "find ?P (y # ys) = Some s"
      by (simp split: if_splits)
    show ?thesis
    proof (cases c)
      case None
      with fnd show ?thesis by simp
    next
      case (Some c')
      with Cons.prems(1) lt have "createdAt c' < createdAt y"
        by (simp add: loop_inv_def)
      with le have "createdAt c' \<noteq> createdAt s" by simp
      with Some fnd show ?thesis by simp
    qed
  next
    case False
    with Cons.prems have res: "closest_loop ys t c m = Some s"
      by (auto simp: Let_def)
    note props = closest_loop_Some [OF Cons.prems(1) res]
    note ih = Cons.IH [OF Cons.prems(1) res]
    show ?thesis
    proof (cases c)
      case None
      with Cons.prems(1) have "m = None" by (simp add: loop_inv_def)
      with False have "\<not> createdAt y \<le> t" by simp
      with props have "createdAt y \<noteq> createdAt s" by auto
      with ih None show ?thesis by simp
    next
      case (Some c')
      show ?thesis
      proof (cases "createdAt c' = createdAt s")
        case True
        with ih Some show ?thesis by simp
      next
        case neq: False
        from Cons.prems(1) Some have m: "m = Some (t - createdAt c')"
          by (simp add: loop_inv_def)
        from props Some have c's: "createdAt c' \<le> createdAt s" by simp
        have "createdAt y \<noteq> createdAt s"
        proof
          assume eq: "createdAt y = createdAt s"
          with props have yt: "createdAt y \<le> t" by simp
          then have "\<bar>createdAt y - t\<bar> = t - createdAt y" by linarith
          with False yt m have "\<not> t - createdAt y < t - createdAt c'" by simp
          with eq c's neq show False by linarith
        qed
        with ih Some neq show ?thesis by simp
      qed
    qed
  qed
qed

lemma loop_inv_start: "loop_inv t None None"
  by (simp add: loop_inv_def)

lemma calculateBaselineDate_utc: "calculateBaselineDate utc_zone now h = now - h * msPerHour"
  by (simp add: calculateBaselineDate_def utc_zone_def Let_def)

lemma evaluator_window:
  "i < length PERFORMANCE_WINDOWS \<Longrightarrow>
   windows (calculatePortfolioPerformance tz uid cv snapshots now) ! i =
     calculateWindowPerformance cv
       (findClosestSnapshot snapshots
          (calculateBaselineDate tz now (hours (PERFORMANCE_WINDOWS ! i))))
       (PERFORMANCE_WINDOWS ! i)"
  by (simp add: calculatePortfolioPerformance_def calculatePortfolioPerformanceWith_def
        findClosestSnapshot_def)

lemma baselineDate_of_window:
  "baselineDate (calculateWindowPerformance cv b cfg) = map_option createdAt b"
  by (cases b) (simp_all add: calculateWindowPerformance_def Let_def del: parseFloat_toFixed.simps)

text \<open>
  Whatever the observations and the target instant, the baseline that
  \<open>findClosestSnapshot\<close> returns is one of the observations and is not after the target;
  and when some observation lies at or before the target, a baseline is returned and no
  observation at or before the target is later than it. The evaluator selects, for each
  of its windows, the baseline that this search returns for the instant that
  \<open>calculateBaselineDate\<close> gives.
\<close>

lemma findClosestSnapshot_latest:
  "(\<forall>s. findClosestSnapshot snapshots target = Some s \<longrightarrow>
        s \<in> set snapshots \<and> createdAt s \<le> target) \<and>
   ((\<exists>x\<in>set snapshots. createdAt x \<le> target) \<longrightarrow>
      (\<exists>s. findClosestSnapshot snapshots target = Some s \<and>
           s \<in> set snapshots \<and> createdAt s \<le> target \<and>
           (\<forall>x\<in>set snapshots. createdAt x \<le> target \<longrightarrow> createdAt x \<le> createdAt s))) \<and>
   (\<forall>i < length PERFORMANCE_WINDOWS.
      baselineDate (windows (calculatePortfolioPerformance tz uid cv snapshots now) ! i) =
        map_option createdAt
          (findClosestSnapshot snapshots
             (calculateBaselineDate tz now (hours (PERFORMANCE_WINDOWS ! i)))))"
proof -
  have search: "(\<forall>s. findClosestSnapshot snapshots target = Some s \<longrightarrow>
        s \<in> set snapshots \<and> createdAt s \<le> target) \<and>
   ((\<exists>x\<in>set snapshots. createdAt x \<le> target) \<longrightarrow>
      (\<exists>s. findClosestSnapshot snapshots target = Some s \<and>
           s \<in> set snapshots \<and> createdAt s \<le> target \<and>
           (\<forall>x\<in>set snapshots. createdAt x \<le> target \<longrightarrow> createdAt x \<le> createdAt s)))"
  proof (cases "snapshots = []")
    case True
    then show ?thesis
      by (simp add: findClosestSnapshot_def findClosestSnapshotWith_def)
  next
    case False
    let ?ys = "sort_key createdAt snapshots"
    from False
    have run: "findClosestSnapshot snapshots target = closest_loop ?ys target None None"
      by (simp add: findClosestSnapshot_def findClosestSnapshotWith_def)
    have sel: "s \<in> set snapshots \<and> createdAt s \<le> target \<and>
               (\<forall>x\<in>set snapshots. createdAt x \<le> target \<longrightarrow> createdAt x \<le> createdAt s)"
      if "closest_loop ?ys target None None = Some s" for s
      using closest_loop_Some [OF loop_inv_start that] by simp
    have ex: "\<exists>s. closest_loop ?ys target None None = Some s"
      if "\<exists>x\<in>set snapshots. createdAt x \<le> target"
    proof (cases "closest_loop ?ys target None None")
      case None
      with closest_loop_None [OF loop_inv_start, of ?ys target] that show ?thesis by simp
    next
      case (Some s)
      then show ?thesis by simp
    qed
    from run sel ex show ?thesis by metis
  qed
  have "baselineDate (windows (calculatePortfolioPerformance tz uid cv snapshots now) ! i) =
        map_option createdAt
          (findClosestSnapshot snapshots
             (calculateBaselineDate tz now (hours (PERFORMANCE_WINDOWS ! i))))"
    if "i < length PERFORMANCE_WINDOWS" for i
    using that by (simp only: evaluator_window baselineDate_of_window)
  with search show ?thesis by blast
qed

text \<open>
  Claim C1 does not hold of the code. The search is right for the target it is given,
  but the evaluator does not give it the instant \<open>now\<close> minus the window's hours:
  \<open>calculateBaselineDate\<close> lowers the hour field of the local time of the process, and
  across a change of the zone's offset that is another instant. In New York at
  2024-03-10T12:00Z the target of the 24-hour window is 23 hours before \<open>now\<close>, and the
  observation of 2024-03-09T12:30Z, which is after \<open>now\<close> minus 24 hours and which the
  search rejects for that instant, is selected as the baseline of the window.
\<close>

theorem spring_forward_baseline_after_target:
  "calculateBaselineDate ny_zone now_mar10 24 = now_mar10 - 23 * msPerHour \<and>
   now_mar10 - 24 * msPerHour < createdAt obs_mar09 \<and>
   createdAt obs_mar09 \<le> now_mar10 - 23 * msPerHour \<and>
   findClosestSnapshot [obs_mar09] (now_mar10 - 24 * msPerHour) = None \<and>
   dtoWindow (windows (calculatePortfolioPerformance ny_zone ''user-1'' (Fin 100)
                         [obs_mar09] now_mar10) ! 0) = W24h \<and>
   baselineDate (windows (calculatePortfolioPerformance ny_zone ''user-1'' (Fin 100)
                            [obs_mar09] now_mar10) ! 0) = Some (createdAt obs_mar09)"
  by (simp add: calculatePortfolioPerformance_def calculatePortfolioPerformanceWith_def
        PERFORMANCE_WINDOWS_def findClosestSnapshot_def findClosestSnapshotWith_def
        calculateWindowPerformance_def calculateBaselineDate_def ny_zone_def now_mar10_def
        obs_mar09_def msPerHour_def Let_def del: parseFloat_toFixed.simps)

section \<open>Determinism of the evaluation\<close>

lemma stable_ascending_unique:
  assumes "stable_ascending xs ys"
  shows "ys = sort_key createdAt xs"
proof -
  from assms have m: "mset ys = mset xs" and s: "sorted (map createdAt ys)"
    and f: "\<And>k. k \<in> set xs \<Longrightarrow> filter (\<lambda>x. createdAt x = createdAt k) ys
                  = filter (\<lambda>x. createdAt x = createdAt k) xs"
    by (auto simp: stable_ascending_def)
  from m have st: "set ys = set xs" by (rule mset_eq_setD)
  have "sort_key createdAt xs = ys"
  proof (rule properties_for_sort_key [OF m _ s])
    fix k assume "k \<in> set ys"
    with st have "k \<in> set xs" by simp
    from f [OF this] show "filter (\<lambda>x. createdAt k = createdAt x) ys
                         = filter (\<lambda>x. createdAt k = createdAt x) xs"
      by (simp add: eq_commute)
  qed
  then show ?thesis by simp
qed

lemma find_as_filter:
  "find P xs = (case filter P xs of [] \<Rightarrow> None | x # _ \<Rightarrow> Some x)"
  by (induction xs) auto

lemma find_sort_key_same_key:
  "find (\<lambda>x. f x = k) (sort_key f xs) = find (\<lambda>x. f x = k) xs"
  by (simp add: find_as_filter sort_key_stable)

lemma findClosestSnapshot_first_latest:
  "findClosestSnapshot xs t = find (latest_eligible xs t) xs"
proof (cases "xs = []")
  case True
  then show ?thesis by (simp add: findClosestSnapshot_def findClosestSnapshotWith_def)
next
  case False
  let ?ys = "sort_key createdAt xs"
  from False have run: "findClosestSnapshot xs t = closest_loop ?ys t None None"
    by (simp add: findClosestSnapshot_def findClosestSnapshotWith_def)
  show ?thesis
  proof (cases "closest_loop ?ys t None None")
    case None
    with closest_loop_None [OF loop_inv_start, of ?ys t]
    have "\<forall>x\<in>set xs. \<not> createdAt x \<le> t" by simp
    then have "find (latest_eligible xs t) xs = None"
      by (simp add: find_None_iff latest_eligible_def)
    with run None show ?thesis by simp
  next
    case (Some s)
    from closest_loop_Some [OF loop_inv_start Some]
    have s: "createdAt s \<le> t" "s \<in> set xs"
      and mx: "\<forall>x\<in>set xs. createdAt x \<le> t \<longrightarrow> createdAt x \<le> createdAt s"
      by simp_all
    from closest_loop_first [OF loop_inv_start Some]
    have "find (\<lambda>x. createdAt x = createdAt s) ?ys = Some s" by simp
    then have fs: "find (\<lambda>x. createdAt x = createdAt s) xs = Some s"
      by (simp add: find_sort_key_same_key)
    have "latest_eligible xs t x = (createdAt x = createdAt s)" if "x \<in> set xs" for x
      using that s mx by (fastforce simp: latest_eligible_def)
    then have "find (latest_eligible xs t) xs = find (\<lambda>x. createdAt x = createdAt s) xs"
      by (intro find_cong) simp_all
    with fs run Some show ?thesis by simp
  qed
qed

text \<open>
  With the time zone of the process fixed, the response does not depend on the engine's
  sort routine, as long as it returns a stable ascending rearrangement of the
  observations as ECMAScript requires. The baseline of every target is then fixed by the
  input order: it is the first observation in the sequence among the latest ones at or
  before the target, also when several observations share that instant.
\<close>

lemma evaluation_independent_of_sort:
  assumes "stable_ascending snapshots (srt1 snapshots)"
    and "stable_ascending snapshots (srt2 snapshots)"
  shows "calculatePortfolioPerformanceWith srt1 tz uid currentValue snapshots now
         = calculatePortfolioPerformanceWith srt2 tz uid currentValue snapshots now
       \<and> (\<forall>target. findClosestSnapshotWith srt1 snapshots target
                    = find (latest_eligible snapshots target) snapshots)"
proof -
  from assms have "srt1 snapshots = sort_key createdAt snapshots"
    and "srt2 snapshots = sort_key createdAt snapshots"
    by (simp_all add: stable_ascending_unique)
  then have eq: "findClosestSnapshotWith srt1 snapshots t = findClosestSnapshot snapshots t"
    "findClosestSnapshotWith srt2 snapshots t = findClosestSnapshot snapshots t" for t
    by (simp_all add: findClosestSnapshotWith_def findClosestSnapshot_def)
  show ?thesis
    by (simp add: calculatePortfolioPerformanceWith_def eq findClosestSnapshot_first_latest)
qed

lemma evaluation_independent_of_sort_example:
  "stable_ascending [obs_jun19, obs_jun13, obs_jun13_later_row]
     (sort_key createdAt [obs_jun19, obs_jun13, obs_jun13_later_row]) \<and>
   stable_ascending [obs_jun19, obs_jun13, obs_jun13_later_row]
     (descending_then_reversed [obs_jun19, obs_jun13, obs_jun13_later_row]) \<and>
   calculatePortfolioPerformanceWith (sort_key createdAt) utc_zone ''user-1'' (Fin 100)
     [obs_jun19, obs_jun13, obs_jun13_later_row] now_jun20
   = calculatePortfolioPerformanceWith descending_then_reversed utc_zone ''user-1'' (Fin 100)
     [obs_jun19, obs_jun13, obs_jun13_later_row] now_jun20 \<and>
   findClosestSnapshotWith (sort_key createdAt)
     [obs_jun19, obs_jun13, obs_jun13_later_row] 1718280000000 = Some obs_jun13"
proof -
  let ?xs = "[obs_jun19, obs_jun13, obs_jun13_later_row]"
  have h1: "stable_ascending ?xs (sort_key createdAt ?xs)"
    by (simp add: stable_ascending_def obs_jun19_def obs_jun13_def obs_jun13_later_row_def)
  have h2: "stable_ascending ?xs (descending_then_reversed ?xs)"
    by (simp add: stable_ascending_def descending_then_reversed_def
          obs_jun19_def obs_jun13_def obs_jun13_later_row_def)
  have pick: "find (latest_eligible ?xs 1718280000000) ?xs = Some obs_jun13"
    by (simp add: latest_eligible_def obs_jun19_def obs_jun13_def obs_jun13_later_row_def)
  from evaluation_independent_of_sort
         [of ?xs "sort_key createdAt" descending_then_reversed, OF h1 h2]
    h1 h2 pick
  show ?thesis by simp
qed

text \<open>
  Claim C9 does not hold of the code. The account, the current value, the observations
  and \<open>now\<close> do not fix the response: the targets of the windows are computed in the
  local time of the process, so the time zone that the process runs in is a further
  input, one that is not among the parameters. The same call gives a 24-hour window
  with data in New York and without data in UTC.
\<close>

theorem response_depends_on_process_zone:
  "calculatePortfolioPerformance ny_zone ''user-1'' (Fin 100) [obs_mar09] now_mar10
     \<noteq> calculatePortfolioPerformance utc_zone ''user-1'' (Fin 100) [obs_mar09] now_mar10 \<and>
   map hasData (windows (calculatePortfolioPerformance ny_zone ''user-1'' (Fin 100)
                           [obs_mar09] now_mar10)) = [True, False, False] \<and>
   map hasData (windows (calculatePortfolioPerformance utc_zone ''user-1'' (Fin 100)
                           [obs_mar09] now_mar10)) = [False, False, False]"
  by (simp add: calculatePortfolioPerformance_def calculatePortfolioPerformanceWith_def
        PERFORMANCE_WINDOWS_def findClosestSnapshot_def findClosestSnapshotWith_def
        calculateWindowPerformance_def calculateBaselineDate_def ny_zone_def utc_zone_def
        now_mar10_def obs_mar09_def msPerHour_def Let_def del: parseFloat_toFixed.simps)

section \<open>Window metrics\<close>

text \<open>
  Rounding to \<open>d\<close> decimals: the result is a multiple of \<open>10^-d\<close> within half a unit
  of the last place of the argument.
\<close>

lemma round_half_away_close:
  "\<bar>round_half_away d x - x\<bar> \<le> 1 / (2 * 10 ^ d)"
proof -
  have key: "\<bar>of_int \<lfloor>y * 10 ^ d + 1 / 2\<rfloor> / 10 ^ d - y\<bar> \<le> 1 / (2 * 10 ^ d)" for y :: rat
  proof -
    let ?p = "(10::rat) ^ d"
    let ?n = "of_int \<lfloor>y * ?p + 1 / 2\<rfloor> :: rat"
    have p: "0 < ?p" by simp
    have "?n \<le> y * ?p + 1 / 2" by (rule of_int_floor_le)
    moreover have "y * ?p + 1 / 2 < ?n + 1" by (rule floor_less_cancel) linarith
    ultimately have "\<bar>?n - y * ?p\<bar> \<le> 1 / 2" by linarith
    then have "\<bar>?n - y * ?p\<bar> / ?p \<le> (1 / 2) / ?p"
      by (rule divide_right_mono) simp
    moreover have "\<bar>?n - y * ?p\<bar> / ?p = \<bar>?n / ?p - y\<bar>"
      using p by (simp add: abs_div_pos diff_divide_distrib flip: abs_divide)
    ultimately show ?thesis by simp
  qed
  show ?thesis
  proof (cases "x < 0")
    case True
    then have "round_half_away d x - x = - (of_int \<lfloor>(- x) * 10 ^ d + 1 / 2\<rfloor> / 10 ^ d - (- x))"
      by (simp add: round_half_away_def)
    with key [of "- x"] show ?thesis by (simp only: abs_minus_cancel)
  next
    case False
    with key [of x] show ?thesis by (simp add: round_half_away_def)
  qed
qed

lemma round_half_away_decimal:
  "\<exists>n::int. round_half_away d x = of_int n / 10 ^ d"
proof (cases "x < 0")
  case True
  then have "round_half_away d x = of_int (- \<lfloor>(- x) * 10 ^ d + 1 / 2\<rfloor>) / 10 ^ d"
    by (simp add: round_half_away_def)
  then show ?thesis by blast
next
  case False
  then show ?thesis by (auto simp: round_half_away_def)
qed

lemma floor_half_rat: "\<lfloor>(1::rat) / 2\<rfloor> = 0"
  by (simp add: floor_eq_iff)

lemma parseFloat_toFixed_zero: "parseFloat_toFixed d (Fin 0) = Fin 0"
  by (simp add: round_half_away_def floor_half_rat)

lemma parseFloat_toFixed_finite: "\<exists>p. parseFloat_toFixed d (Fin x) = Fin p"
  by simp

lemma calculateWindowPerformance_Some:
  "calculateWindowPerformance cv (Some b) cfg =
     \<lparr>dtoWindow = window cfg, hasData = True,
      absolutePnl = Some (parseFloat_toFixed 2 (js_sub cv (totalValueUsd b))),
      percentageChange =
        Some (if totalValueUsd b = Fin 0 then Fin 0
              else parseFloat_toFixed 4
                     (js_mul (js_div (js_sub cv (totalValueUsd b)) (totalValueUsd b))
                        (Fin 100))),
      currentValueUsd = cv,
      baselineValueUsd = Some (totalValueUsd b),
      baselineDate = Some (createdAt b)\<rparr>"
  by (simp add: calculateWindowPerformance_def Let_def parseFloat_toFixed_zero
        del: parseFloat_toFixed.simps)

lemma js_sub_finite: "js_sub (Fin c) (Fin v) = Fin (c - v)"
  by (simp add: js_sub_def)

lemma js_percent_finite:
  "v \<noteq> 0 \<Longrightarrow> js_mul (js_div (Fin d) (Fin v)) (Fin 100) = Fin (d / v * 100)"
  by simp

section \<open>Invariant of the window results\<close>

text \<open>
  Claim C5. In every response there is one result per configured window, in the
  configured order; every result carries the current value that was passed in; a result
  without data has no baseline value, no baseline date, no absolute PnL and no
  percentage change; and with no observations at all, no result has data.
\<close>

theorem window_results_invariant:
  "(let resp = calculatePortfolioPerformance tz uid currentValue snapshots now
    in map dtoWindow (windows resp) = map window PERFORMANCE_WINDOWS \<and>
       (\<forall>w\<in>set (windows resp).
          currentValueUsd w = currentValue \<and>
          (\<not> hasData w \<longrightarrow>
             baselineValueUsd w = None \<and> baselineDate w = None \<and>
             absolutePnl w = None \<and> percentageChange w = None)) \<and>
       (snapshots = [] \<longrightarrow> (\<forall>w\<in>set (windows resp). \<not> hasData w)))"
  by (auto simp: calculatePortfolioPerformance_def calculatePortfolioPerformanceWith_def
        PERFORMANCE_WINDOWS_def calculateWindowPerformance_def Let_def
        findClosestSnapshotWith_def
        split: option.splits simp del: parseFloat_toFixed.simps)

theorem window_results_invariant_witness:
  "(let resp = calculatePortfolioPerformance utc_zone ''user-1'' (Fin 150) [] now_jun20
    in ([]::SnapshotData list) = [] \<and>
       map dtoWindow (windows resp) = [W24h, W7d, W30d] \<and>
       (\<forall>w\<in>set (windows resp).
          \<not> hasData w \<and> currentValueUsd w = Fin 150 \<and>
          baselineValueUsd w = None \<and> baselineDate w = None \<and>
          absolutePnl w = None \<and> percentageChange w = None))"
  using window_results_invariant [of utc_zone "''user-1''" "Fin 150" "[]" now_jun20]
  by (simp add: Let_def PERFORMANCE_WINDOWS_def)

section \<open>The baseline search does not touch its input\<close>

lemma findClosestSnapshot_heap_frame:
  assumes "snapshots < length h"
  shows "take (length h) (fst (findClosestSnapshot_heap h snapshots t)) = h
       \<and> snd (findClosestSnapshot_heap h snapshots t) = findClosestSnapshot (h ! snapshots) t"
  using assms
  by (simp add: findClosestSnapshot_heap_def array_spread_def array_sort_def Let_def
        findClosestSnapshot_def findClosestSnapshotWith_def)

lemma take_prefix_nth:
  "take n h' = h \<Longrightarrow> a < length h \<Longrightarrow> h' ! a = h ! a"
  by (metis length_take min_less_iff_conj nth_take)

lemma windows_heap_frame:
  assumes "snapshots < length h"
  shows "take (length h) (fst (windows_heap tz h cv snapshots now configs)) = h
       \<and> snd (windows_heap tz h cv snapshots now configs)
         = map (\<lambda>config. calculateWindowPerformance cv
                  (findClosestSnapshot (h ! snapshots)
                     (calculateBaselineDate tz now (hours config))) config) configs"
  using assms
proof (induction configs arbitrary: h)
  case Nil
  then show ?case by simp
next
  case (Cons config configs)
  let ?t = "calculateBaselineDate tz now (hours config)"
  obtain h1 r where f: "findClosestSnapshot_heap h snapshots ?t = (h1, r)"
    by (cases "findClosestSnapshot_heap h snapshots ?t")
  with findClosestSnapshot_heap_frame [OF Cons.prems, of ?t]
  have h1: "take (length h) h1 = h" and r: "r = findClosestSnapshot (h ! snapshots) ?t"
    by simp_all
  from h1 Cons.prems have len: "length h \<le> length h1"
    by (metis length_take min.cobounded1 min.commute)
  with Cons.prems have s1: "snapshots < length h1" by simp
  from h1 Cons.prems have same: "h1 ! snapshots = h ! snapshots"
    by (rule take_prefix_nth)
  obtain h2 ws where w: "windows_heap tz h1 cv snapshots now configs = (h2, ws)"
    by (cases "windows_heap tz h1 cv snapshots now configs")
  with Cons.IH [OF s1]
  have h2: "take (length h1) h2 = h1"
    and ws: "ws = map (\<lambda>config. calculateWindowPerformance cv
                  (findClosestSnapshot (h1 ! snapshots)
                     (calculateBaselineDate tz now (hours config))) config) configs"
    by simp_all
  from h2 h1 len have "take (length h) h2 = h"
    by (metis min.absorb2 take_take min.commute)
  with f w r ws same show ?case by (simp add: Let_def)
qed

text \<open>
  Claim C10. For a valid reference \<open>snapshots\<close> into the store, the baseline search
  leaves the array at that reference, and every other array that existed before the
  call, as it was: the store afterwards is the store before, extended by the sorted
  copy. Its result is the one of the function on values. The same holds for the
  evaluation over all windows.
\<close>

theorem baseline_search_leaves_input_unchanged:
  assumes "snapshots < length h"
  shows "(\<forall>t. let (h', r) = findClosestSnapshot_heap h snapshots t
              in h' ! snapshots = h ! snapshots \<and> take (length h) h' = h \<and>
                 r = findClosestSnapshot (h ! snapshots) t) \<and>
         (let (h', resp) = calculatePortfolioPerformance_heap tz h uid cv snapshots now
          in h' ! snapshots = h ! snapshots \<and> take (length h) h' = h \<and>
             resp = calculatePortfolioPerformance tz uid cv (h ! snapshots) now)"
proof (intro conjI allI)
  fix t
  from findClosestSnapshot_heap_frame [OF assms, of t] take_prefix_nth [OF _ assms]
  show "let (h', r) = findClosestSnapshot_heap h snapshots t
        in h' ! snapshots = h ! snapshots \<and> take (length h) h' = h \<and>
           r = findClosestSnapshot (h ! snapshots) t"
    by (auto simp: Let_def split: prod.splits)
next
  from windows_heap_frame [OF assms, of tz cv now PERFORMANCE_WINDOWS]
    take_prefix_nth [OF _ assms]
  show "let (h', resp) = calculatePortfolioPerformance_heap tz h uid cv snapshots now
        in h' ! snapshots = h ! snapshots \<and> take (length h) h' = h \<and>
           resp = calculatePortfolioPerformance tz uid cv (h ! snapshots) now"
    by (auto simp: Let_def calculatePortfolioPerformance_heap_def
          calculatePortfolioPerformance_def calculatePortfolioPerformanceWith_def
          findClosestSnapshot_def split: prod.splits)
qed

theorem baseline_search_leaves_input_unchanged_witness:
  "(0::nat) < length [[obs_jun19, obs_jun13]] \<and>
   fst (findClosestSnapshot_heap [[obs_jun19, obs_jun13]] 0 1718280000000)
     = [[obs_jun19, obs_jun13], [obs_jun13, obs_jun19]] \<and>
   fst (calculatePortfolioPerformance_heap utc_zone [[obs_jun19, obs_jun13]] ''user-1''
          (Fin 100) 0 now_jun20) ! 0 = [obs_jun19, obs_jun13]"
proof -
  have h: "(0::nat) < length [[obs_jun19, obs_jun13]]" by simp
  have e: "fst (findClosestSnapshot_heap [[obs_jun19, obs_jun13]] 0 1718280000000)
     = [[obs_jun19, obs_jun13], [obs_jun13, obs_jun19]]"
    by (simp add: findClosestSnapshot_heap_def array_spread_def array_sort_def
          obs_jun19_def obs_jun13_def)
  from baseline_search_leaves_input_unchanged
         [OF h, of utc_zone "''user-1''" "Fin 100" now_jun20] h e
  show ?thesis by (auto simp: Let_def split: prod.splits)
qed

section \<open>The 7-day scenario\<close>

text \<open>
  With observations worth 80 on June 13 and 100 on June 19, the 7-day window at June 20,
  whose target is the instant of the first, is measured against 80.
\<close>

lemma seven_day_scenario:
  "windows (calculatePortfolioPerformance utc_zone ''user-1'' (Fin 100)
              [obs_jun19, obs_jun13] now_jun20) ! 1 =
     \<lparr>dtoWindow = W7d, hasData = True, absolutePnl = Some (Fin 20),
      percentageChange = Some (Fin 25), currentValueUsd = Fin 100,
      baselineValueUsd = Some (Fin 80), baselineDate = Some 1718280000000\<rparr>"
proof -
  have t: "calculateBaselineDate utc_zone now_jun20 (24 * 7) = 1718280000000"
    by (simp add: calculateBaselineDate_utc now_jun20_def msPerHour_def)
  have f: "findClosestSnapshot [obs_jun19, obs_jun13] 1718280000000 = Some obs_jun13"
    by (simp add: findClosestSnapshot_def findClosestSnapshotWith_def obs_jun19_def obs_jun13_def)
  have a: "parseFloat_toFixed 2 (Fin 20) = Fin 20" by code_simp
  have b: "parseFloat_toFixed 4 (Fin 25) = Fin 25" by code_simp
  have w: "calculateWindowPerformance (Fin 100) (Some obs_jun13) \<lparr>window = W7d, hours = 24 * 7\<rparr>
           = \<lparr>dtoWindow = W7d, hasData = True, absolutePnl = Some (Fin 20),
      percentageChange = Some (Fin 25), currentValueUsd = Fin 100,
      baselineValueUsd = Some (Fin 80), baselineDate = Some 1718280000000\<rparr>"
    by (simp add: calculateWindowPerformance_Some obs_jun13_def js_sub_finite a b
          del: parseFloat_toFixed.simps)
  show ?thesis
    using t f w
    by (simp add: calculatePortfolioPerformance_def calculatePortfolioPerformanceWith_def
          PERFORMANCE_WINDOWS_def findClosestSnapshot_def del: parseFloat_toFixed.simps)
qed

section \<open>The weighted average of a group\<close>

lemma non_null_pairs_weights:
  "map snd (weighted_pairs rows) = non_null (map volume rows)"
  unfolding weighted_pairs_def
proof (induction rows)
  case Nil
  show ?case by simp
next
  case (Cons a rows)
  then show ?case by (cases "volume a") simp_all
qed

lemma non_null_pairs_products:
  "map (\<lambda>(s, v). s * v) (weighted_pairs rows) = non_null (map score_times_volume rows)"
  unfolding weighted_pairs_def score_times_volume_def
proof (induction rows)
  case Nil
  show ?case by simp
next
  case (Cons a rows)
  then show ?case by (cases "volume a") simp_all
qed

lemma weighted_pairs_empty:
  "(non_null (map volume rows) = []) = (weighted_pairs rows = [])"
  by (metis non_null_pairs_weights map_is_Nil_conv)

lemma products_empty:
  "(non_null (map score_times_volume rows) = []) = (weighted_pairs rows = [])"
  by (metis non_null_pairs_products map_is_Nil_conv)

lemma aggregate_group_weighted:
  "aggVolumeWeightedSentiment (parseRow (aggregate_group key rows)) =
     (if weighted_pairs rows \<noteq> [] \<and> 0 < sum_list (map snd (weighted_pairs rows))
      then Some (Fin (sum_list (map (\<lambda>(s, v). s * v) (weighted_pairs rows))
                      / sum_list (map snd (weighted_pairs rows))))
      else None)"
  by (simp add: parseRow_def aggregate_group_def sql_weighted_def sql_sum_def nullableFloat_def
        parseFloat_text_def weighted_pairs_empty products_empty
        non_null_pairs_weights non_null_pairs_products)

lemma aggregate_group_total:
  "aggTotalVolume (parseRow (aggregate_group key rows)) =
     (if weighted_pairs rows = [] then None
      else Some (Fin (sum_list (map snd (weighted_pairs rows)))))"
  by (simp add: parseRow_def aggregate_group_def sql_sum_def nullableFloat_def
        parseFloat_text_def weighted_pairs_empty non_null_pairs_weights)

lemma btc_scenario:
  "parseRow (aggregate_group (Some ''BTC'') btc_signals) =
     \<lparr>aggSymbol = Some ''BTC'', aggAvgSentiment = Fin (7 / 10),
      aggMinSentiment = Some (Fin (5 / 10)), aggMaxSentiment = Some (Fin (9 / 10)),
      aggSignalCount = 3, aggTotalVolume = Some (Fin 60),
      aggVolumeWeightedSentiment = Some (Fin ((5 / 10 * 10 + 7 / 10 * 20 + 9 / 10 * 30) / 60))\<rparr>"
  by (simp add: parseRow_def aggregate_group_def btc_signals_def sql_avg_def sql_sum_def
        sql_weighted_def score_times_volume_def nullableFloat_def parseFloat_text_def)

lemma btc_approx: "\<bar>(5 / 10 * 10 + 7 / 10 * 20 + 9 / 10 * 30) / 60 - 7667 / 10000 :: rat\<bar> < 1 / 10000"
  by simp

lemma btc_rows_of_day:
  "snd (aggregateForDate db_jun15 jun15) =
     [parseRow (aggregate_group (Some ''BTC'') btc_signals),
      parseRow (aggregate_group None btc_signals)]"
  by (simp add: aggregateForDate_def aggregation_query_def per_asset_rows_def global_row_def
        db_jun15_def btc_signals_def on_utc_date_def jun15_def msPerHour_def msPerDay_def Let_def)

text \<open>
  Claim C6, amended. For every group of raw records, the total weight is null when no
  record of the group has a weight and is the sum of the weights otherwise; the weighted
  average is null when the total weight is null or not positive (zero or negative), and
  otherwise it is the sum of score times weight divided by the sum of the weights, both
  sums over the same records, those that have a weight. In particular scores 0.5, 0.7,
  0.9 with weights 10, 20, 30 for one key give average 0.7, minimum 0.5, maximum 0.9,
  count 3, total weight 60 and weighted average (0.5*10 + 0.7*20 + 0.9*30)/60, which is
  0.7667 to four decimals.
\<close>

theorem weighted_average_guard:
  "(let agg = parseRow (aggregate_group key rows);
        pairs = weighted_pairs rows;
        weight = sum_list (map snd pairs)
    in aggTotalVolume agg = (if pairs = [] then None else Some (Fin weight)) \<and>
       aggVolumeWeightedSentiment agg =
         (if pairs \<noteq> [] \<and> 0 < weight
          then Some (Fin (sum_list (map (\<lambda>(s, v). s * v) pairs) / weight))
          else None)) \<and>
   parseRow (aggregate_group (Some ''BTC'') btc_signals) =
     \<lparr>aggSymbol = Some ''BTC'', aggAvgSentiment = Fin (7 / 10),
      aggMinSentiment = Some (Fin (5 / 10)), aggMaxSentiment = Some (Fin (9 / 10)),
      aggSignalCount = 3, aggTotalVolume = Some (Fin 60),
      aggVolumeWeightedSentiment =
        Some (Fin ((5 / 10 * 10 + 7 / 10 * 20 + 9 / 10 * 30) / 60))\<rparr> \<and>
   \<bar>(5 / 10 * 10 + 7 / 10 * 20 + 9 / 10 * 30) / 60 - 7667 / 10000 :: rat\<bar> < 1 / 10000"
  using btc_scenario btc_approx
  by (simp only: Let_def aggregate_group_total aggregate_group_weighted simp_thms)

theorem weighted_average_guard_witness:
  "weighted_pairs zero_weight_signals = [(1 / 4, 0)] \<and>
   aggTotalVolume (parseRow (aggregate_group (Some ''ETH'') zero_weight_signals)) = Some (Fin 0) \<and>
   aggVolumeWeightedSentiment (parseRow (aggregate_group (Some ''ETH'') zero_weight_signals))
     = None \<and>
   weighted_pairs btc_signals = [(5 / 10, 10), (7 / 10, 20), (9 / 10, 30)] \<and>
   aggVolumeWeightedSentiment (parseRow (aggregate_group None btc_signals))
     = Some (Fin (23 / 30))"
proof -
  have z: "weighted_pairs zero_weight_signals = [(1 / 4, 0)]"
    by (simp add: weighted_pairs_def zero_weight_signals_def)
  have b: "weighted_pairs btc_signals = [(5 / 10, 10), (7 / 10, 20), (9 / 10, 30)]"
    by (simp add: weighted_pairs_def btc_signals_def)
  from weighted_average_guard [of "Some ''ETH''" zero_weight_signals, THEN conjunct1]
  have 1: "aggTotalVolume (parseRow (aggregate_group (Some ''ETH'') zero_weight_signals))
             = Some (Fin 0) \<and>
           aggVolumeWeightedSentiment (parseRow (aggregate_group (Some ''ETH'') zero_weight_signals))
             = None"
    unfolding Let_def z by simp
  from weighted_average_guard [of None btc_signals, THEN conjunct1]
  have 2: "aggVolumeWeightedSentiment (parseRow (aggregate_group None btc_signals))
             = Some (Fin (23 / 30))"
    unfolding Let_def b by simp
  from z b 1 2 show ?thesis by simp
qed

text \<open>
  The claim as it was stated gives a number whenever the total weight is neither null
  nor zero. A group whose total weight is negative has no weighted average.
\<close>

theorem weighted_average_negative_weight_counterexample:
  "\<not> ((aggTotalVolume (parseRow (aggregate_group (Some ''BTC'') [negative_weight_signal])) = None \<or>
        aggTotalVolume (parseRow (aggregate_group (Some ''BTC'') [negative_weight_signal]))
          = Some (Fin 0)
        \<longrightarrow> aggVolumeWeightedSentiment
              (parseRow (aggregate_group (Some ''BTC'') [negative_weight_signal])) = None) \<and>
       (\<not> (aggTotalVolume (parseRow (aggregate_group (Some ''BTC'') [negative_weight_signal])) = None \<or>
           aggTotalVolume (parseRow (aggregate_group (Some ''BTC'') [negative_weight_signal]))
             = Some (Fin 0))
        \<longrightarrow> aggVolumeWeightedSentiment
              (parseRow (aggregate_group (Some ''BTC'') [negative_weight_signal]))
            = Some (Fin ((1 / 2 * (- 10)) / (- 10)))))"
  by (simp add: parseRow_def aggregate_group_def negative_weight_signal_def sql_sum_def
        sql_weighted_def nullableFloat_def parseFloat_text_def)

section \<open>A run of the generator\<close>

lemma msPerDay_pos: "0 < msPerDay"
  by (simp add: msPerDay_def)

lemma toUtcMidnight_idem: "toUtcMidnight (toUtcMidnight d) = toUtcMidnight d"
  by (simp add: toUtcMidnight_def)

lemma toUtcMidnight_normalized: "d mod msPerDay = 0 \<Longrightarrow> toUtcMidnight d = d"
  by (simp add: toUtcMidnight_def)

lemma toUtcMidnight_same_day: "toUtcMidnight d div msPerDay = d div msPerDay"
  using msPerDay_pos
  by (simp add: toUtcMidnight_def minus_mod_eq_mult_div)

lemma non_null_keys: "non_null (map Some ks @ [None]) = ks"
  by (induction ks) simp_all

lemma aggregation_symbols:
  "map aggSymbol (snd (aggregateForDate db d)) =
     map Some (remdups (non_null (map asset_symbol (filter (on_utc_date d) (signals db)))))
       @ [None]"
  by (simp add: aggregateForDate_def aggregation_query_def per_asset_rows_def global_row_def
        parseRow_def aggregate_group_def Let_def comp_def)

lemma aggregation_symbols_distinct:
  "distinct (non_null (map aggSymbol (snd (aggregateForDate db d))))"
  by (simp add: aggregation_symbols non_null_keys)

lemma aggregation_nonempty: "snd (aggregateForDate db d) \<noteq> []"
  by (simp add: aggregateForDate_def aggregation_query_def Let_def)

lemma aggregation_has_global:
  "find (\<lambda>a. aggSymbol a = None) (snd (aggregateForDate db d)) \<noteq> None"
proof -
  have "None \<in> set (map aggSymbol (snd (aggregateForDate db d)))"
    by (simp add: aggregation_symbols)
  then show ?thesis
    by (auto simp: find_None_iff)
qed

lemma aggregateForDate_fst:
  "fst (aggregateForDate db d) = db\<lparr>statements := statements db @ [AggregateQuery d]\<rparr>"
  by (simp add: aggregateForDate_def)

lemma generateForDate_run:
  "generateForDate db now date =
     (let utcDate = toUtcMidnight date;
          aggregations = snd (aggregateForDate db utcDate)
      in (db\<lparr>statements := statements db @
                 [AggregateQuery utcDate, UpsertStatement utcDate (length aggregations)],
             daily_snapshots :=
               fold (\<lambda>agg table. upsert_row now utcDate table agg) aggregations
                 (daily_snapshots db)\<rparr>,
          Inr \<lparr>runDate = utcDate,
               assetRowsWritten = length (filter (\<lambda>a. aggSymbol a \<noteq> None) aggregations),
               globalRowWritten = True\<rparr>))"
proof -
  let ?d = "toUtcMidnight date"
  obtain db1 aggs where a: "aggregateForDate db ?d = (db1, aggs)"
    by (cases "aggregateForDate db ?d")
  with aggregateForDate_fst [of db ?d]
  have db1: "db1 = db\<lparr>statements := statements db @ [AggregateQuery ?d]\<rparr>" by simp
  from a aggregation_nonempty [of db ?d] have ne: "aggs \<noteq> []" by simp
  from a aggregation_symbols_distinct [of db ?d]
  have di: "distinct (non_null (map aggSymbol aggs))" by simp
  from a aggregation_has_global [of db ?d]
  have gl: "find (\<lambda>a. aggSymbol a = None) aggs \<noteq> None" by simp
  show ?thesis
    using ne di gl
    by (simp add: generateForDate_def a upsertSnapshots_def Let_def db1)
qed

lemma generateForDate_succeeds:
  "\<exists>db' r. generateForDate db now date = (db', Inr r) \<and> runDate r = toUtcMidnight date \<and>
     signals db' = signals db \<and>
     queried_dates (statements db') = queried_dates (statements db) @ [toUtcMidnight date]"
proof -
  have q: "queried_dates (ss @ [AggregateQuery d, UpsertStatement d n]) = queried_dates ss @ [d]"
    for ss d n
    by (induction ss rule: queried_dates.induct) simp_all
  show ?thesis
    by (simp add: generateForDate_run Let_def q)
qed

lemma no_records_global_only:
  "filter (on_utc_date d) (signals db) = [] \<Longrightarrow>
   snd (aggregateForDate db d) =
     [\<lparr>aggSymbol = None, aggAvgSentiment = NaN, aggMinSentiment = None,
       aggMaxSentiment = None, aggSignalCount = 0, aggTotalVolume = None,
       aggVolumeWeightedSentiment = None\<rparr>]"
  by (simp add: aggregateForDate_def aggregation_query_def per_asset_rows_def global_row_def
        parseRow_def aggregate_group_def sql_avg_def sql_sum_def sql_weighted_def
        parseFloat_text_def nullableFloat_def)

lemma jun16_no_records: "filter (on_utc_date (jun15 + msPerDay)) (signals db_jun15) = []"
  by (simp add: db_jun15_def btc_signals_def on_utc_date_def jun15_def msPerDay_def msPerHour_def)

text \<open>
  Claim C2 does not hold of the code. On a day without raw records the aggregation is
  not empty: the ungrouped half of the query still yields its one row, with count 0 and
  no statistics. The generator therefore does not take its branch for an empty
  aggregation; it upserts that row and reports a global row as written. Evaluated for
  2024-06-16 on the data of 2024-06-15:
\<close>

theorem empty_day_writes_global_row:
  "filter (on_utc_date (jun15 + msPerDay)) (signals db_jun15) = [] \<and>
   snd (aggregateForDate db_jun15 (jun15 + msPerDay)) =
     [\<lparr>aggSymbol = None, aggAvgSentiment = NaN, aggMinSentiment = None,
       aggMaxSentiment = None, aggSignalCount = 0, aggTotalVolume = None,
       aggVolumeWeightedSentiment = None\<rparr>] \<and>
   snd (generateForDate db_jun15 now_jun17 (jun15 + msPerDay)) =
     Inr \<lparr>runDate = jun15 + msPerDay, assetRowsWritten = 0, globalRowWritten = True\<rparr> \<and>
   statements (fst (generateForDate db_jun15 now_jun17 (jun15 + msPerDay))) =
     [AggregateQuery (jun15 + msPerDay), UpsertStatement (jun15 + msPerDay) 1] \<and>
   daily_snapshots (fst (generateForDate db_jun15 now_jun17 (jun15 + msPerDay))) =
     [\<lparr>rowId = 1, snapshotDate = jun15 + msPerDay, assetSymbol = None, avgSentiment = NaN,
       minSentiment = None, maxSentiment = None, signalCount = 0, totalVolume = None,
       volumeWeightedSentiment = None, rowCreatedAt = now_jun17, rowUpdatedAt = now_jun17\<rparr>]"
proof -
  have n: "toUtcMidnight (jun15 + msPerDay) = jun15 + msPerDay"
    by (simp add: toUtcMidnight_def jun15_def msPerDay_def)
  have e: "daily_snapshots db_jun15 = []" "statements db_jun15 = []"
    by (simp_all add: db_jun15_def)
  show ?thesis
    by (simp add: generateForDate_run Let_def n no_records_global_only [OF jun16_no_records]
          jun16_no_records e upsert_row_def conflicts_def new_row_def fresh_id_def n)
qed

subsection \<open>Running the generator twice\<close>

lemma same_day_midnight: "same_day x (toUtcMidnight d) = same_day x d"
  by (simp add: same_day_def toUtcMidnight_same_day)

lemma global_rows_of_midnight: "global_rows_of (toUtcMidnight d) table = global_rows_of d table"
  by (simp add: global_rows_of_def same_day_midnight)

lemma global_rows_of_append:
  "global_rows_of d (xs @ ys) = global_rows_of d xs @ global_rows_of d ys"
  by (simp add: global_rows_of_def)

lemma global_rows_of_overwrite:
  "global_rows_of d (map (\<lambda>row. if c row then overwrite now agg row else row) table)
   = map (\<lambda>row. if c row then overwrite now agg row else row) (global_rows_of d table)"
  by (induction table) (auto simp: global_rows_of_def overwrite_def)

lemma upsert_row_global_count:
  "length (global_rows_of d (upsert_row now d table agg)) =
     length (global_rows_of d table) + (if aggSymbol agg = None then 1 else 0)"
proof (cases "aggSymbol agg")
  case None
  then have "upsert_row now d table agg = table @ [new_row (fresh_id table) now d agg]"
    by (simp add: upsert_row_def conflicts_def)
  moreover have "global_rows_of d [new_row i now d agg] = [new_row i now d agg]" for i
    using None
    by (simp add: global_rows_of_def new_row_def same_day_def toUtcMidnight_same_day)
  ultimately show ?thesis
    using None by (simp add: global_rows_of_append)
next
  case (Some k)
  have "global_rows_of d [new_row i now d agg] = []" for i
    using Some by (simp add: global_rows_of_def new_row_def)
  with Some show ?thesis
    by (simp add: upsert_row_def global_rows_of_append global_rows_of_overwrite)
qed

lemma fold_upsert_global_count:
  "length (global_rows_of d (fold (\<lambda>agg table. upsert_row now d table agg) aggs table)) =
     length (global_rows_of d table) + length (filter (\<lambda>a. aggSymbol a = None) aggs)"
  by (induction aggs arbitrary: table) (simp_all add: upsert_row_global_count)

lemma count_None_keys: "length (filter (\<lambda>s. s = None) (map Some ks @ [None])) = 1"
  by (induction ks) simp_all

lemma aggregation_one_global:
  "length (filter (\<lambda>a. aggSymbol a = None) (snd (aggregateForDate db d))) = 1"
proof -
  have "length (filter (\<lambda>a. aggSymbol a = None) xs)
        = length (filter (\<lambda>s. s = None) (map aggSymbol xs))" for xs :: "AssetAggregation list"
    by (induction xs) simp_all
  then show ?thesis
    by (simp only: aggregation_symbols count_None_keys)
qed

lemma generateForDate_global_count:
  "length (global_rows_of date (daily_snapshots (fst (generateForDate db now date)))) =
     Suc (length (global_rows_of date (daily_snapshots db)))"
proof -
  have "length (global_rows_of (toUtcMidnight date)
          (daily_snapshots (fst (generateForDate db now date)))) =
        Suc (length (global_rows_of (toUtcMidnight date) (daily_snapshots db)))"
    by (simp add: generateForDate_run Let_def fold_upsert_global_count aggregation_one_global)
  then show ?thesis by (simp add: global_rows_of_midnight)
qed

lemma generateForDate_result_depends_on_signals:
  "signals db' = signals db \<Longrightarrow>
   snd (generateForDate db' now' date) = snd (generateForDate db now date)"
  by (simp add: generateForDate_run Let_def aggregateForDate_def)

lemma generateForDate_signals:
  "signals (fst (generateForDate db now date)) = signals db"
  by (simp add: generateForDate_run Let_def)

text \<open>
  Claim C3 does not hold of the code. The second run for a date reports the same counts
  as the first, but it does not leave the stored rows as they were: the row without a
  symbol never conflicts with a stored row, so each run inserts one more such row for
  the date.
\<close>

theorem rerun_adds_global_row:
  "snd (generateForDate (fst (generateForDate db t1 date)) t2 date)
     = snd (generateForDate db t1 date) \<and>
   length (global_rows_of date
             (daily_snapshots (fst (generateForDate (fst (generateForDate db t1 date)) t2 date))))
     = Suc (length (global_rows_of date (daily_snapshots (fst (generateForDate db t1 date))))) \<and>
   length (global_rows_of date (daily_snapshots (fst (generateForDate db t1 date)))) \<ge> 1"
  using generateForDate_global_count [of date db t1]
  by (simp add: generateForDate_global_count
        generateForDate_result_depends_on_signals [OF generateForDate_signals])

text \<open>
  On the data of 2024-06-15: the row of \<^verbatim>\<open>BTC\<close> is overwritten by the second run, the
  row without a symbol is stored a second time.
\<close>

lemma rerun_jun15_stored_rows:
  "map (\<lambda>row. (snapshotDate row, assetSymbol row))
     (daily_snapshots (fst (generateForDate db_jun15 now_jun16 jun15)))
     = [(jun15, Some ''BTC''), (jun15, None)] \<and>
   map (\<lambda>row. (snapshotDate row, assetSymbol row))
     (daily_snapshots
        (fst (generateForDate (fst (generateForDate db_jun15 now_jun16 jun15)) now_jun17 jun15)))
     = [(jun15, Some ''BTC''), (jun15, None), (jun15, None)] \<and>
   snd (generateForDate (fst (generateForDate db_jun15 now_jun16 jun15)) now_jun17 jun15)
     = snd (generateForDate db_jun15 now_jun16 jun15)"
proof -
  have n: "toUtcMidnight jun15 = jun15"
    by (simp add: toUtcMidnight_def jun15_def msPerDay_def)
  have s: "signals (fst (generateForDate db_jun15 now_jun16 jun15)) = signals db_jun15"
    by (rule generateForDate_signals)
  have a: "snd (aggregateForDate db jun15) =
     [parseRow (aggregate_group (Some ''BTC'') btc_signals),
      parseRow (aggregate_group None btc_signals)]" if "signals db = btc_signals" for db
    using that
    by (simp add: aggregateForDate_def aggregation_query_def per_asset_rows_def global_row_def
        btc_signals_def on_utc_date_def jun15_def msPerHour_def msPerDay_def Let_def)
  have sd: "same_day jun15 jun15" by (simp add: same_day_def)
  have first: "map (\<lambda>row. (snapshotDate row, assetSymbol row))
     (daily_snapshots (fst (generateForDate db_jun15 now_jun16 jun15)))
     = [(jun15, Some ''BTC''), (jun15, None)]"
    by (simp add: generateForDate_run Let_def n a db_jun15_def upsert_row_def conflicts_def
          new_row_def parseRow_def aggregate_group_def)
  have rows1: "daily_snapshots (fst (generateForDate db_jun15 now_jun16 jun15)) =
     [new_row 1 now_jun16 jun15 (parseRow (aggregate_group (Some ''BTC'') btc_signals)),
      new_row 2 now_jun16 jun15 (parseRow (aggregate_group None btc_signals))]"
    by (simp add: generateForDate_run Let_def n a db_jun15_def upsert_row_def conflicts_def
          fresh_id_def new_row_def parseRow_def aggregate_group_def)
  have "signals db_jun15 = btc_signals" by (simp add: db_jun15_def)
  with s have s1: "signals (fst (generateForDate db_jun15 now_jun16 jun15)) = btc_signals"
    by simp
  have second: "map (\<lambda>row. (snapshotDate row, assetSymbol row))
     (daily_snapshots
        (fst (generateForDate (fst (generateForDate db_jun15 now_jun16 jun15)) now_jun17 jun15)))
     = [(jun15, Some ''BTC''), (jun15, None), (jun15, None)]"
    by (simp add: generateForDate_run [of "fst (generateForDate db_jun15 now_jun16 jun15)"]
          Let_def n a [OF s1] rows1 upsert_row_def conflicts_def sd
          new_row_def overwrite_def parseRow_def aggregate_group_def)
  from first second
    generateForDate_result_depends_on_signals [OF s, of now_jun17 jun15 now_jun16]
  show ?thesis by simp
qed

section \<open>Backfill\<close>

lemma days_between_empty: "\<not> c \<le> e \<Longrightarrow> days_between c e = []"
proof -
  assume "\<not> c \<le> e"
  then have "e - c < 0" by simp
  with msPerDay_pos have "(e - c) div msPerDay < 0"
    by (simp add: pos_imp_zdiv_neg_iff)
  then show ?thesis by (simp add: days_between_def)
qed

lemma days_between_step:
  assumes "c \<le> e"
  shows "days_between c e = c # days_between (c + msPerDay) e"
proof -
  let ?m = "nat ((e - (c + msPerDay)) div msPerDay + 1)"
  from assms msPerDay_pos have nn: "0 \<le> (e - c) div msPerDay"
    by (simp add: pos_imp_zdiv_nonneg_iff)
  have "((e - (c + msPerDay)) + msPerDay) div msPerDay = (e - (c + msPerDay)) div msPerDay + 1"
    using msPerDay_pos by (intro div_add_self2) simp
  moreover have "(e - (c + msPerDay)) + msPerDay = e - c" by simp
  ultimately have "(e - (c + msPerDay)) div msPerDay = (e - c) div msPerDay - 1"
    by simp
  with nn have n: "nat ((e - c) div msPerDay + 1) = Suc ?m" by simp
  have "days_between c e = map (\<lambda>i. c + int i * msPerDay) [0 ..< Suc ?m]"
    by (simp only: days_between_def n)
  also have "[0 ..< Suc ?m] = 0 # map Suc [0 ..< ?m]"
    by (simp add: upt_conv_Cons map_Suc_upt del: upt_Suc)
  also have "map (\<lambda>i. c + int i * msPerDay) (0 # map Suc [0 ..< ?m])
             = c # map (\<lambda>i. (c + msPerDay) + int i * msPerDay) [0 ..< ?m]"
    by (simp add: algebra_simps)
  finally show ?thesis by (simp add: days_between_def)
qed

lemma backfill_loop_run_days:
  "backfill_loop gen db c e acc =
     (case run_days gen db (days_between c e) of
        (db', Inl er) \<Rightarrow> (db', Inl er)
      | (db', Inr rs) \<Rightarrow> (db', Inr (acc @ rs)))"
proof (induction gen db c e acc rule: backfill_loop.induct)
  case (1 gen db cursor endDate results)
  show ?case
  proof (cases "cursor \<le> endDate")
    case False
    then show ?thesis by (simp add: days_between_empty)
  next
    case True
    obtain db' res where g: "gen db cursor = (db', res)"
      by (cases "gen db cursor")
    show ?thesis
    proof (cases res)
      case (Inl er)
      with True g show ?thesis
        by (simp add: days_between_step)
    next
      case (Inr r)
      with g have g': "gen db cursor = (db', Inr r)" by simp
      from "1.IH" [OF True g' [symmetric] refl]
      have "backfill_loop gen db' (cursor + msPerDay) endDate (results @ [r]) =
         (case run_days gen db' (days_between (cursor + msPerDay) endDate) of
            (db'', Inl er) \<Rightarrow> (db'', Inl er)
          | (db'', Inr rs) \<Rightarrow> (db'', Inr ((results @ [r]) @ rs)))" .
      with True g' show ?thesis
        by (simp add: days_between_step split: prod.splits sum.splits)
    qed
  qed
qed

lemma backfill_with_run_days:
  assumes "fromDate mod msPerDay = 0" and "toDate mod msPerDay = 0"
  shows "backfill_with gen db fromDate toDate = run_days gen db (days_between fromDate toDate)"
proof -
  obtain db' res where r: "run_days gen db (days_between fromDate toDate) = (db', res)"
    by (cases "run_days gen db (days_between fromDate toDate)")
  with assms show ?thesis
    by (cases res)
       (simp_all add: backfill_with_def toUtcMidnight_normalized backfill_loop_run_days
          del: backfill_loop.simps)
qed

lemma generateForDate_dated:
  assumes "generateForDate db now date = (db', Inr r)"
  shows "runDate r = toUtcMidnight date \<and>
         queried_dates (statements db') = queried_dates (statements db) @ [toUtcMidnight date]"
  using generateForDate_succeeds [of db now date] assms by auto

lemma run_days_dated:
  "run_days (\<lambda>db' date. generateForDate db' now date) db ds = (db1, Inr rs) \<Longrightarrow>
   map runDate rs = map toUtcMidnight ds \<and>
   queried_dates (statements db1) = queried_dates (statements db) @ map toUtcMidnight ds"
proof (induction ds arbitrary: db rs)
  case Nil
  then show ?case by simp
next
  case (Cons d ds)
  obtain dbm res where g: "generateForDate db now d = (dbm, res)"
    by (cases "generateForDate db now d")
  from Cons.prems g obtain r where res: "res = Inr r"
    by (cases res) simp_all
  obtain dbn res' where rd: "run_days (\<lambda>db' date. generateForDate db' now date) dbm ds = (dbn, res')"
    by (cases "run_days (\<lambda>db' date. generateForDate db' now date) dbm ds")
  from Cons.prems g res rd obtain rs' where res': "res' = Inr rs'" and rs: "rs = r # rs'"
    and db1: "db1 = dbn"
    by (cases res') simp_all
  from Cons.IH [of dbm rs'] rd res' db1
  have ih: "map runDate rs' = map toUtcMidnight ds"
    "queried_dates (statements db1) = queried_dates (statements dbm) @ map toUtcMidnight ds"
    by simp_all
  from generateForDate_dated [of db now d dbm r] g res
  have "runDate r = toUtcMidnight d"
    "queried_dates (statements dbm) = queried_dates (statements db) @ [toUtcMidnight d]"
    by simp_all
  with ih rs show ?case by simp
qed

lemma days_between_normalized:
  assumes "f mod msPerDay = 0"
  shows "map toUtcMidnight (days_between f t) = days_between f t"
proof -
  have "toUtcMidnight (f + int i * msPerDay) = f + int i * msPerDay" for i
    using assms by (simp add: toUtcMidnight_def)
  then show ?thesis by (simp add: days_between_def)
qed

lemma days_between_single: "days_between d d = [d]"
  by (simp add: days_between_def)

lemma days_between_ascending: "sorted_wrt (<) (days_between f t)"
  using msPerDay_pos
  by (simp add: days_between_def sorted_wrt_map sorted_wrt_iff_nth_less)

lemma days_between_set:
  assumes "f mod msPerDay = 0"
  shows "set (days_between f t) = {d. f \<le> d \<and> d \<le> t \<and> d mod msPerDay = 0}"
proof (intro set_eqI iffI)
  fix d assume "d \<in> set (days_between f t)"
  then obtain i where i: "i < nat ((t - f) div msPerDay + 1)" and d: "d = f + int i * msPerDay"
    by (auto simp: days_between_def)
  from i have "int i \<le> (t - f) div msPerDay" by simp
  then have "int i * msPerDay \<le> (t - f) div msPerDay * msPerDay"
    using msPerDay_pos by (simp add: mult_right_mono)
  also have "\<dots> = (t - f) - (t - f) mod msPerDay"
    by (simp add: minus_mod_eq_div_mult)
  also have "\<dots> \<le> t - f"
    using msPerDay_pos by simp
  finally have "d \<le> t" using d by simp
  moreover from d msPerDay_pos have "f \<le> d" by simp
  moreover from d assms have "d mod msPerDay = 0" by simp
  ultimately show "d \<in> {d. f \<le> d \<and> d \<le> t \<and> d mod msPerDay = 0}" by simp
next
  fix d assume "d \<in> {d. f \<le> d \<and> d \<le> t \<and> d mod msPerDay = 0}"
  then have fd: "f \<le> d" and dt: "d \<le> t" and dm: "d mod msPerDay = 0" by simp_all
  let ?i = "nat ((d - f) div msPerDay)"
  from dm assms have "(d - f) mod msPerDay = 0"
    by (simp add: mod_diff_eq [symmetric])
  then have "(d - f) div msPerDay * msPerDay = d - f"
    by (simp add: mod_0_imp_dvd)
  moreover from fd msPerDay_pos have nn: "0 \<le> (d - f) div msPerDay"
    by (simp add: pos_imp_zdiv_nonneg_iff)
  ultimately have d: "d = f + int ?i * msPerDay" by simp
  from dt msPerDay_pos have "(d - f) div msPerDay \<le> (t - f) div msPerDay"
    by (intro zdiv_mono1) simp_all
  with nn have "?i < nat ((t - f) div msPerDay + 1)" by simp
  with d show "d \<in> set (days_between f t)"
    unfolding days_between_def by (metis (no_types, lifting) atLeast0LessThan image_eqI lessThan_iff list.set_map set_upt)
qed

text \<open>
  Claim C7. For dates \<open>fromDate\<close> and \<open>toDate\<close> at UTC midnight, from the year 100 on
  and before the last day of \<^verbatim>\<open>Date\<close>, and whatever a day's run does, failing or not:
  when \<open>toDate\<close> is before \<open>fromDate\<close> the backfill returns no result and leaves the
  database, its log of statements included, as it was, without a single run; for one
  and the same date it is one run, for that date, and its result alone when the run
  gives one; and in general it is one run for each calendar day from \<open>fromDate\<close> to
  \<open>toDate\<close>, both included, in ascending order, up to the first run that fails, whose
  exception is then the outcome. With the generator of this model, a backfill that
  returns has results dated with these days in this order and has issued one
  aggregation query for each of them.
\<close>

theorem backfill_range:
  assumes "fromDate mod msPerDay = 0" and "toDate mod msPerDay = 0"
    and "plain_date fromDate" and "plain_date toDate"
  shows "(toDate < fromDate \<longrightarrow> backfill_with gen db fromDate toDate = (db, Inr [])) \<and>
         backfill_with gen db fromDate fromDate =
           (case gen db fromDate of
              (db', Inl e) \<Rightarrow> (db', Inl e)
            | (db', Inr r) \<Rightarrow> (db', Inr [r])) \<and>
         backfill_with gen db fromDate toDate = run_days gen db (days_between fromDate toDate) \<and>
         sorted_wrt (<) (days_between fromDate toDate) \<and>
         set (days_between fromDate toDate) =
           {d. fromDate \<le> d \<and> d \<le> toDate \<and> d mod msPerDay = 0} \<and>
         (\<forall>db' rs. backfill db now fromDate toDate = (db', Inr rs) \<longrightarrow>
            map runDate rs = days_between fromDate toDate \<and>
            queried_dates (statements db') =
              queried_dates (statements db) @ days_between fromDate toDate)"
proof -
  have empty: "backfill_with gen db fromDate toDate = (db, Inr [])" if "toDate < fromDate"
    using that assms(1,2) by (simp add: backfill_with_run_days days_between_empty)
  have single: "backfill_with gen db fromDate fromDate =
           (case gen db fromDate of
              (db', Inl e) \<Rightarrow> (db', Inl e)
            | (db', Inr r) \<Rightarrow> (db', Inr [r]))"
    using assms(1)
    by (simp add: backfill_with_run_days days_between_single split: prod.splits sum.splits)
  have dated: "map runDate rs = days_between fromDate toDate \<and>
            queried_dates (statements db') =
              queried_dates (statements db) @ days_between fromDate toDate"
    if "backfill db now fromDate toDate = (db', Inr rs)" for db' rs
  proof -
    from that assms(1,2)
    have "run_days (\<lambda>db' date. generateForDate db' now date) db (days_between fromDate toDate)
          = (db', Inr rs)"
      by (simp add: backfill_def backfill_with_run_days)
    from run_days_dated [OF this] show ?thesis
      by (simp add: days_between_normalized [OF assms(1)])
  qed
  from empty have e: "toDate < fromDate \<longrightarrow> backfill_with gen db fromDate toDate = (db, Inr [])"
    by blast
  from dated have d: "\<forall>db' rs. backfill db now fromDate toDate = (db', Inr rs) \<longrightarrow>
            map runDate rs = days_between fromDate toDate \<and>
            queried_dates (statements db') =
              queried_dates (statements db) @ days_between fromDate toDate"
    by blast
  note rd = backfill_with_run_days [OF assms(1,2), of gen db]
  note asc = days_between_ascending [of fromDate toDate]
  note st = days_between_set [OF assms(1), of toDate]
  show ?thesis
    by (intro conjI) (rule e single rd asc st d)+
qed

theorem backfill_range_witness:
  "(jun15 - msPerDay) mod msPerDay = 0 \<and> (jun15 + msPerDay) mod msPerDay = 0 \<and>
   plain_date (jun15 - msPerDay) \<and> plain_date (jun15 + msPerDay) \<and>
   jun15 - msPerDay < jun15 + msPerDay \<and>
   backfill_with (failing_on jun15) db_jun15 (jun15 + msPerDay) (jun15 - msPerDay)
     = (db_jun15, Inr []) \<and>
   backfill_with (failing_on jun15) db_jun15 (jun15 - msPerDay) (jun15 + msPerDay)
     = (db_jun15\<lparr>statements := [AggregateQuery (jun15 - msPerDay), AggregateQuery jun15]\<rparr>,
        Inl ''numeric field overflow'') \<and>
   (\<exists>db' rs. backfill db_jun15 0 (jun15 - msPerDay) (jun15 + msPerDay) = (db', Inr rs) \<and>
      map runDate rs = [jun15 - msPerDay, jun15, jun15 + msPerDay] \<and>
      queried_dates (statements db') = [jun15 - msPerDay, jun15, jun15 + msPerDay])"
proof -
  have f: "(jun15 - msPerDay) mod msPerDay = 0" and t: "(jun15 + msPerDay) mod msPerDay = 0"
    by (simp_all add: jun15_def msPerDay_def)
  have pf: "plain_date (jun15 - msPerDay)" and pt: "plain_date (jun15 + msPerDay)"
    by (simp_all add: plain_date_def jun15_def msPerDay_def)
  have d: "days_between (jun15 - msPerDay) (jun15 + msPerDay)
           = [jun15 - msPerDay, jun15, jun15 + msPerDay]"
    by (simp add: days_between_def msPerDay_def jun15_def upt_rec)
  have lt: "jun15 - msPerDay < jun15 + msPerDay" by (simp add: msPerDay_def)
  have ne: "jun15 - msPerDay \<noteq> jun15" by (simp add: msPerDay_def)
  have q: "statements db_jun15 = []" by (simp add: db_jun15_def)
  note fwd = backfill_range [OF f t pf pt]
  note bwd = backfill_range [OF t f pt pf, of "failing_on jun15" db_jun15, THEN conjunct1,
               rule_format, OF lt]
  from fwd [of "failing_on jun15" db_jun15]
  have "backfill_with (failing_on jun15) db_jun15 (jun15 - msPerDay) (jun15 + msPerDay)
        = run_days (failing_on jun15) db_jun15 [jun15 - msPerDay, jun15, jun15 + msPerDay]"
    unfolding d by blast
  then have fail: "backfill_with (failing_on jun15) db_jun15 (jun15 - msPerDay) (jun15 + msPerDay)
     = (db_jun15\<lparr>statements := [AggregateQuery (jun15 - msPerDay), AggregateQuery jun15]\<rparr>,
        Inl ''numeric field overflow'')"
    using ne by (simp add: failing_on_def q)
  obtain db' res where r: "backfill db_jun15 0 (jun15 - msPerDay) (jun15 + msPerDay) = (db', res)"
    by (cases "backfill db_jun15 0 (jun15 - msPerDay) (jun15 + msPerDay)")
  from fwd [of "\<lambda>db' date. generateForDate db' 0 date" db_jun15]
  have "backfill db_jun15 0 (jun15 - msPerDay) (jun15 + msPerDay)
        = run_days (\<lambda>db' date. generateForDate db' 0 date) db_jun15
            [jun15 - msPerDay, jun15, jun15 + msPerDay]"
    unfolding d backfill_def by blast
  with r obtain rs where res: "res = Inr rs"
    by (cases res) (simp_all add: generateForDate_run Let_def)
  from fwd [of "failing_on jun15" db_jun15 0, THEN conjunct2, THEN conjunct2, THEN conjunct2,
            THEN conjunct2, THEN conjunct2, rule_format, of db' rs] r res
  have "map runDate rs = [jun15 - msPerDay, jun15, jun15 + msPerDay] \<and>
      queried_dates (statements db') = [jun15 - msPerDay, jun15, jun15 + msPerDay]"
    unfolding d q by simp
  with r res
  have ex: "\<exists>db' rs. backfill db_jun15 0 (jun15 - msPerDay) (jun15 + msPerDay) = (db', Inr rs) \<and>
      map runDate rs = [jun15 - msPerDay, jun15, jun15 + msPerDay] \<and>
      queried_dates (statements db') = [jun15 - msPerDay, jun15, jun15 + msPerDay]"
    by (intro exI [of _ db'] exI [of _ rs]) simp
  show ?thesis
    by (intro conjI) (rule f t pf pt lt bwd fail ex)+
qed

section \<open>Recording a snapshot when the account or the network is missing\<close>



end
